theory Spec2Isabelle
  imports Complex_Main
begin

section \<open>Kalman filter and RTS smoother of \<^verbatim>\<open>src/state/kalman.py\<close>\<close>

subsection \<open>Numbers\<close>

text \<open>
  The arrays of \<^verbatim>\<open>kalman.py\<close> hold numpy doubles. A double is read here as an exact
  real, or as one more value \<open>NonFinite\<close> that stands for \<^verbatim>\<open>inf\<close>, \<^verbatim>\<open>-inf\<close> and
  \<^verbatim>\<open>nan\<close> together: rounding, overflow and underflow are left out. numpy does not raise
  on a division by zero or on the logarithm of a non-positive number; it returns a
  non-finite value (and prints a warning), and sums, differences and products of a
  non-finite value are non-finite again. The quotients of the program divide by
  \<^verbatim>\<open>S[tt]\<close> and \<^verbatim>\<open>Pp[tt+1]\<close> only, which are finite or \<^verbatim>\<open>nan\<close>, so a quotient with a
  non-finite operand is non-finite as well.

  In this reading a theorem says which operation on which entries yields an entry, which
  statement raises, and where a division by zero makes a value non-finite. It does not
  say what a double is after rounding or underflow. Two claims rest on exactly that and
  are not stated in this theory: C5 (the total log-likelihood as the exact sum of its
  terms, where \<^verbatim>\<open>np.sum\<close> rounds every partial sum) and C10 (a positive \<^verbatim>\<open>S[tt]\<close> for every
  \<open>par[3] \<noteq> 0\<close>, where the double \<^verbatim>\<open>par[3]**2\<close> underflows to zero for a tiny
  \<^verbatim>\<open>par[3]\<close>).
\<close>

datatype fl = Fin real | NonFinite

fun fadd :: "fl \<Rightarrow> fl \<Rightarrow> fl" where
  "fadd (Fin a) (Fin b) = Fin (a + b)"
| "fadd _ _ = NonFinite"

fun fsub :: "fl \<Rightarrow> fl \<Rightarrow> fl" where
  "fsub (Fin a) (Fin b) = Fin (a - b)"
| "fsub _ _ = NonFinite"

fun fmul :: "fl \<Rightarrow> fl \<Rightarrow> fl" where
  "fmul (Fin a) (Fin b) = Fin (a * b)"
| "fmul _ _ = NonFinite"

fun fdiv :: "fl \<Rightarrow> fl \<Rightarrow> fl" where
  "fdiv (Fin a) (Fin b) = (if b = 0 then NonFinite else Fin (a / b))"
| "fdiv _ _ = NonFinite"

text \<open>\<^verbatim>\<open>np.log\<close>: \<^verbatim>\<open>-inf\<close> at zero, \<^verbatim>\<open>nan\<close> below.\<close>

fun flog :: "fl \<Rightarrow> fl" where
  "flog (Fin a) = (if a \<le> 0 then NonFinite else Fin (ln a))"
| "flog NonFinite = NonFinite"

text \<open>
  \<^verbatim>\<open>x**n\<close> for an integer exponent, on a finite base (every base of the program is an
  entry of \<^verbatim>\<open>sys.par\<close> or of \<^verbatim>\<open>sys.y\<close>): a numpy double zero to a negative power is
  \<^verbatim>\<open>inf\<close>.
\<close>

definition fpow :: "real \<Rightarrow> int \<Rightarrow> fl" where
  "fpow x n = (if x = 0 \<and> n < 0 then NonFinite else Fin (x powi n))"

text \<open>
  \<^verbatim>\<open>np.sum\<close> of a one-dimensional array, in the same reading: numpy adds the doubles
  pairwise and rounds each partial sum; here the finite terms are added as reals, and one
  non-finite term makes the sum non-finite.
\<close>

fun np_sum :: "fl list \<Rightarrow> fl" where
  "np_sum [] = Fin 0"
| "np_sum (x # xs) = fadd x (np_sum xs)"

fun is_fin :: "fl \<Rightarrow> bool" where
  "is_fin (Fin a) = True"
| "is_fin NonFinite = False"

fun fin_val :: "fl \<Rightarrow> real" where
  "fin_val (Fin a) = a"
| "fin_val NonFinite = 0"

subsection \<open>Errors, arrays and loops\<close>

datatype error = ValueError | IndexError | UnboundLocalError

definition bnd :: "error + 'a \<Rightarrow> ('a \<Rightarrow> error + 'b) \<Rightarrow> error + 'b" where
  "bnd r f = (case r of Inl e \<Rightarrow> Inl e | Inr a \<Rightarrow> f a)"

text \<open>\<^verbatim>\<open>np.zeros\<close> of a given length: a negative dimension is a \<^verbatim>\<open>ValueError\<close>.\<close>

definition np_zeros :: "int \<Rightarrow> error + fl list" where
  "np_zeros n = (if n < 0 then Inl ValueError else Inr (replicate (nat n) (Fin 0)))"

text \<open>Indexing: a negative index counts from the end, an index out of range raises.\<close>

definition py_index :: "nat \<Rightarrow> int \<Rightarrow> error + nat" where
  "py_index n i =
     (if 0 \<le> i \<and> i < int n then Inr (nat i)
      else if - int n \<le> i \<and> i < 0 then Inr (nat (int n + i))
      else Inl IndexError)"

definition rd :: "'a list \<Rightarrow> int \<Rightarrow> error + 'a" where
  "rd xs i = bnd (py_index (length xs) i) (\<lambda>j. Inr (xs ! j))"

definition wr :: "'a list \<Rightarrow> int \<Rightarrow> 'a \<Rightarrow> error + 'a list" where
  "wr xs i a = bnd (py_index (length xs) i) (\<lambda>j. Inr (xs[j := a]))"

text \<open>The slice \<^verbatim>\<open>xs[0:n]\<close>: a negative stop counts from the end, and the stop is clipped.\<close>

definition py_slice0 :: "'a list \<Rightarrow> int \<Rightarrow> 'a list" where
  "py_slice0 xs n =
     (if n < 0 then take (nat (int (length xs) + n)) xs else take (nat n) xs)"

text \<open>\<^verbatim>\<open>range(a, b)\<close> and \<^verbatim>\<open>range(a, b, -1)\<close>.\<close>

definition py_range :: "int \<Rightarrow> int \<Rightarrow> int list" where
  "py_range a b = [a..b - 1]"

definition py_range_down :: "int \<Rightarrow> int \<Rightarrow> int list" where
  "py_range_down a b = rev [b + 1..a]"

text \<open>A \<^verbatim>\<open>for\<close> loop over a list of indices: the body updates the state or raises.\<close>

fun for_loop :: "('i \<Rightarrow> 's \<Rightarrow> error + 's) \<Rightarrow> 'i list \<Rightarrow> 's \<Rightarrow> error + 's" where
  "for_loop body [] s = Inr s"
| "for_loop body (i # is) s = bnd (body i s) (for_loop body is)"

subsection \<open>The model interface\<close>

text \<open>
  The object \<^verbatim>\<open>sys\<close> as \<^verbatim>\<open>kf\<close> and \<^verbatim>\<open>rts\<close> read it: \<^verbatim>\<open>par\<close> is a numpy array
  (\<^verbatim>\<open>ssm.par = np.zeros(nPar)\<close>), \<^verbatim>\<open>y\<close> and \<^verbatim>\<open>u\<close> are the data, \<^verbatim>\<open>dprior1\<close> is the
  derivative of the log-prior, a function of the parameter index.
\<close>

record sys =
  sys_par :: "real list"
  sys_y :: "real list"
  sys_u :: "real list"
  sys_T :: int
  sys_nParInference :: int
  sys_dprior1 :: "int \<Rightarrow> fl"

subsection \<open>The Kalman filter \<^verbatim>\<open>kf\<close>\<close>

text \<open>The local arrays of \<^verbatim>\<open>kf\<close>.\<close>

record kf_vars =
  v_S :: "fl list"
  v_K :: "fl list"
  v_xhatp :: "fl list"
  v_xhatf :: "fl list"
  v_yhatp :: "fl list"
  v_Pf :: "fl list"
  v_Pp :: "fl list"
  v_ll :: "fl list"

text \<open>
  The object \<^verbatim>\<open>self\<close> when \<^verbatim>\<open>kf\<close> returns. \<^verbatim>\<open>S\<close> and \<^verbatim>\<open>yhatp\<close> are locals that
  \<^verbatim>\<open>kf\<close> does not store; the fields \<open>loc_S\<close> and \<open>loc_yhatp\<close> keep their last values.
  The strings \<^verbatim>\<open>filterType\<close> and \<^verbatim>\<open>smootherType\<close> are left out.
\<close>

record kalman =
  self_xo :: real
  self_Po :: real
  self_m :: real
  self_A :: real
  self_C :: real
  self_Q :: real
  self_q :: real
  self_R :: real
  self_r :: real
  self_ll :: fl
  self_llt :: "fl list"
  self_xhatf :: "fl list"
  self_xhatp :: "fl list"
  self_K :: "fl list"
  self_Pp :: "fl list"
  self_Pf :: "fl list"
  loc_S :: "fl list"
  loc_yhatp :: "fl list"

text \<open>One iteration of the main loop (lines 82 to 95), statement by statement.\<close>

definition kf_step :: "sys \<Rightarrow> real \<Rightarrow> real \<Rightarrow> real \<Rightarrow> real \<Rightarrow> real \<Rightarrow> int \<Rightarrow> kf_vars \<Rightarrow> error + kf_vars" where
  "kf_step sys m A C Q R tt v =
     bnd (rd (v_Pp v) tt) (\<lambda>Pp_tt.
     bnd (wr (v_S v) tt (fadd (fmul (fmul (Fin C) Pp_tt) (Fin C)) (Fin R))) (\<lambda>S.
     bnd (rd (v_Pp v) tt) (\<lambda>Pp_tt.
     bnd (rd S tt) (\<lambda>S_tt.
     bnd (wr (v_K v) tt (fdiv (fmul Pp_tt (Fin C)) S_tt)) (\<lambda>K.
     bnd (rd (v_xhatp v) tt) (\<lambda>xhatp_tt.
     bnd (wr (v_yhatp v) tt (fmul (Fin C) xhatp_tt)) (\<lambda>yhatp.
     bnd (rd (v_xhatp v) tt) (\<lambda>xhatp_tt.
     bnd (rd K tt) (\<lambda>K_tt.
     bnd (rd (sys_y sys) tt) (\<lambda>y_tt.
     bnd (rd yhatp tt) (\<lambda>yhatp_tt.
     bnd (wr (v_xhatf v) tt (fadd xhatp_tt (fmul K_tt (fsub (Fin y_tt) yhatp_tt)))) (\<lambda>xhatf.
     bnd (rd xhatf tt) (\<lambda>xhatf_tt.
     bnd (rd (sys_u sys) tt) (\<lambda>u_tt.
     bnd (wr (v_xhatp v) (tt + 1)
            (fadd (fadd (fmul (Fin A) xhatf_tt) (Fin (m * (1 - A)))) (Fin u_tt))) (\<lambda>xhatp.
     bnd (rd (v_Pp v) tt) (\<lambda>Pp_tt.
     bnd (rd K tt) (\<lambda>K_tt.
     bnd (rd S tt) (\<lambda>S_tt.
     bnd (wr (v_Pf v) tt (fsub Pp_tt (fmul (fmul K_tt S_tt) K_tt))) (\<lambda>Pf.
     bnd (rd Pf tt) (\<lambda>Pf_tt.
     bnd (wr (v_Pp v) (tt + 1) (fadd (fmul (fmul (Fin A) Pf_tt) (Fin A)) (Fin Q))) (\<lambda>Pp.
     bnd (rd S tt) (\<lambda>S_tt.
     bnd (rd (sys_y sys) tt) (\<lambda>y_tt.
     bnd (rd yhatp tt) (\<lambda>yhatp_tt.
     bnd (wr (v_ll v) tt
            (fsub (fmul (Fin (- (1 / 2))) (flog (fmul (Fin (2 * pi)) S_tt)))
               (fdiv (fmul (fmul (Fin (1 / 2)) (fsub (Fin y_tt) yhatp_tt))
                        (fsub (Fin y_tt) yhatp_tt)) S_tt))) (\<lambda>ll.
     Inr \<lparr>v_S = S, v_K = K, v_xhatp = xhatp, v_xhatf = xhatf, v_yhatp = yhatp,
          v_Pf = Pf, v_Pp = Pp, v_ll = ll\<rparr>)))))))))))))))))))))))))"

text \<open>\<^verbatim>\<open>kf\<close>: the allocations, the parameters, the initial state, the loop, the output.\<close>

definition kf :: "sys \<Rightarrow> error + kalman" where
  "kf sys =
     (let xo = 0; Po = 1 / 100000 in
      bnd (np_zeros (sys_T sys)) (\<lambda>S.
      bnd (np_zeros (sys_T sys)) (\<lambda>K.
      bnd (np_zeros (sys_T sys + 1)) (\<lambda>xhatp.
      bnd (np_zeros (sys_T sys)) (\<lambda>xhatf.
      bnd (np_zeros (sys_T sys)) (\<lambda>yhatp.
      bnd (np_zeros (sys_T sys)) (\<lambda>Pf.
      bnd (np_zeros (sys_T sys + 1)) (\<lambda>Pp.
      bnd (np_zeros (sys_T sys)) (\<lambda>ll.
      bnd (rd (sys_par sys) 0) (\<lambda>m.
      bnd (rd (sys_par sys) 1) (\<lambda>A.
      let C = 1 in
      bnd (rd (sys_par sys) 2) (\<lambda>par2.
      let Q = par2 powi 2 in
      bnd (rd (sys_par sys) 2) (\<lambda>q.
      bnd (rd (sys_par sys) 3) (\<lambda>par3.
      let R = par3 powi 2 in
      bnd (rd (sys_par sys) 3) (\<lambda>r.
      bnd (wr Pp 0 (Fin Po)) (\<lambda>Pp.
      bnd (wr xhatp 0 (Fin xo)) (\<lambda>xhatp.
      bnd (for_loop (kf_step sys m A C Q R) (py_range 0 (sys_T sys))
             \<lparr>v_S = S, v_K = K, v_xhatp = xhatp, v_xhatf = xhatf, v_yhatp = yhatp,
              v_Pf = Pf, v_Pp = Pp, v_ll = ll\<rparr>) (\<lambda>v.
      Inr \<lparr>self_xo = xo, self_Po = Po, self_m = m, self_A = A, self_C = C,
           self_Q = Q, self_q = q, self_R = R, self_r = r,
           self_ll = np_sum (v_ll v), self_llt = v_ll v,
           self_xhatf = v_xhatf v, self_xhatp = v_xhatp v, self_K = v_K v,
           self_Pp = v_Pp v, self_Pf = v_Pf v,
           loc_S = v_S v, loc_yhatp = v_yhatp v\<rparr>))))))))))))))))))"

subsection \<open>The smoother \<^verbatim>\<open>rts\<close>\<close>

text \<open>The local arrays of the backward pass.\<close>

record sm_vars =
  r_J :: "fl list"
  r_M :: "fl list"
  r_xhats :: "fl list"
  r_Ps :: "fl list"

text \<open>
  The locals of the gradient estimation: the matrix \<^verbatim>\<open>gradient\<close> as a list of rows, and
  \<^verbatim>\<open>gradient0\<close>, a name that is bound by the first iteration of the loop only.
\<close>

record gr_vars =
  g_gradient :: "fl list list"
  g_gradient0 :: "fl list option"

text \<open>
  What \<^verbatim>\<open>rts\<close> leaves on \<^verbatim>\<open>self\<close>: the attributes of the filter run and its own four.
  \<^verbatim>\<open>J\<close> and \<^verbatim>\<open>M\<close> are locals that \<^verbatim>\<open>rts\<close> does not store; \<open>loc_J\<close> and \<open>loc_M\<close>
  keep their last values.
\<close>

record smoother =
  self_kf :: kalman
  self_Ps :: "fl list"
  self_xhats :: "fl list"
  self_gradient :: "fl list"
  self_gradient1 :: "fl list list"
  loc_J :: "fl list"
  loc_M :: "fl list"

text \<open>Lines 124 to 131: the allocations and the last smoothed state.\<close>

definition rts_init :: "sys \<Rightarrow> kalman \<Rightarrow> error + sm_vars" where
  "rts_init sys self =
     bnd (np_zeros (sys_T sys)) (\<lambda>J.
     bnd (np_zeros (sys_T sys)) (\<lambda>M.
     bnd (np_zeros (sys_T sys)) (\<lambda>xhats.
     bnd (np_zeros (sys_T sys)) (\<lambda>Ps.
     bnd (rd (self_Pf self) (sys_T sys - 1)) (\<lambda>Pf_last.
     bnd (wr Ps (sys_T sys - 1) Pf_last) (\<lambda>Ps.
     bnd (rd (self_xhatf self) (sys_T sys - 1)) (\<lambda>xhatf_last.
     bnd (wr xhats (sys_T sys - 1) xhatf_last) (\<lambda>xhats.
     Inr \<lparr>r_J = J, r_M = M, r_xhats = xhats, r_Ps = Ps\<rparr>))))))))"

text \<open>Lines 138 to 140: one iteration of the backward loop.\<close>

definition rts_back_step :: "kalman \<Rightarrow> int \<Rightarrow> sm_vars \<Rightarrow> error + sm_vars" where
  "rts_back_step self tt v =
     bnd (rd (self_Pf self) tt) (\<lambda>Pf_tt.
     bnd (rd (self_Pp self) (tt + 1)) (\<lambda>Pp_t1.
     bnd (wr (r_J v) tt (fdiv (fmul Pf_tt (Fin (self_A self))) Pp_t1)) (\<lambda>J.
     bnd (rd (self_xhatf self) tt) (\<lambda>xhatf_tt.
     bnd (rd J tt) (\<lambda>J_tt.
     bnd (rd (r_xhats v) (tt + 1)) (\<lambda>xhats_t1.
     bnd (rd (self_xhatp self) (tt + 1)) (\<lambda>xhatp_t1.
     bnd (wr (r_xhats v) tt (fadd xhatf_tt (fmul J_tt (fsub xhats_t1 xhatp_t1)))) (\<lambda>xhats.
     bnd (rd (self_Pf self) tt) (\<lambda>Pf_tt.
     bnd (rd J tt) (\<lambda>J_tt.
     bnd (rd (r_Ps v) (tt + 1)) (\<lambda>Ps_t1.
     bnd (rd (self_Pp self) (tt + 1)) (\<lambda>Pp_t1.
     bnd (wr (r_Ps v) tt (fadd Pf_tt (fmul (fmul J_tt (fsub Ps_t1 Pp_t1)) J_tt))) (\<lambda>Ps.
     Inr (v\<lparr>r_J := J, r_xhats := xhats, r_Ps := Ps\<rparr>))))))))))))))"

definition rts_backward :: "sys \<Rightarrow> kalman \<Rightarrow> sm_vars \<Rightarrow> error + sm_vars" where
  "rts_backward sys self v =
     for_loop (rts_back_step self) (py_range_down (sys_T sys - 2) 0) v"

text \<open>Lines 146 to 148: the covariance between the states at \<open>t\<close> and \<open>t + 1\<close>.\<close>

definition rts_lag_step :: "kalman \<Rightarrow> int \<Rightarrow> sm_vars \<Rightarrow> error + sm_vars" where
  "rts_lag_step self tt v =
     bnd (rd (self_Pf self) tt) (\<lambda>Pf_tt.
     bnd (rd (r_J v) (tt - 1)) (\<lambda>J_t1.
     bnd (rd (r_M v) (tt + 1)) (\<lambda>M_t1.
     bnd (wr (r_M v) tt
            (fadd (fmul Pf_tt J_t1)
               (fmul (fmul J_t1 (fsub M_t1 (fmul (Fin (self_A self)) Pf_tt))) J_t1))) (\<lambda>M.
     Inr (v\<lparr>r_M := M\<rparr>)))))"

definition rts_lagone :: "sys \<Rightarrow> kalman \<Rightarrow> sm_vars \<Rightarrow> error + sm_vars" where
  "rts_lagone sys self v =
     bnd (rd (self_K self) (sys_T sys - 1)) (\<lambda>K_last.
     bnd (rd (self_Pf self) (sys_T sys - 1)) (\<lambda>Pf_last.
     bnd (wr (r_M v) (sys_T sys - 1)
            (fmul (fmul (fsub (Fin 1) K_last) (Fin (self_A self))) Pf_last)) (\<lambda>M.
     for_loop (rts_lag_step self) (py_range_down (sys_T sys - 2) 0) (v\<lparr>r_M := M\<rparr>))))"

text \<open>The store \<^verbatim>\<open>gradient[i, j] = a\<close> into a matrix.\<close>

definition wr2 :: "'a list list \<Rightarrow> int \<Rightarrow> int \<Rightarrow> 'a \<Rightarrow> error + 'a list list" where
  "wr2 g i j a = bnd (rd g i) (\<lambda>row. bnd (wr row j a) (\<lambda>row'. wr g i row'))"

text \<open>
  Lines 157 to 173: one iteration of the gradient loop. An array entry that a statement
  reads several times, with no store in between, is read once here.
\<close>

definition rts_grad_step :: "sys \<Rightarrow> kalman \<Rightarrow> sm_vars \<Rightarrow> int \<Rightarrow> gr_vars \<Rightarrow> error + gr_vars" where
  "rts_grad_step sys self v tt g =
     (let m = self_m self; A = self_A self; q = self_q self; r = self_r self in
      bnd (rd (r_xhats v) tt) (\<lambda>xs.
      bnd (rd (sys_y sys) tt) (\<lambda>y.
      let kappa = fmul xs (Fin y) in
      bnd (rd (r_Ps v) tt) (\<lambda>Ps_tt.
      let eta = fadd (fmul xs xs) Ps_tt in
      bnd (rd (r_xhats v) (tt - 1)) (\<lambda>xs1.
      bnd (rd (r_Ps v) (tt - 1)) (\<lambda>Ps_t1.
      let eta1 = fadd (fmul xs1 xs1) Ps_t1 in
      bnd (rd (r_M v) tt) (\<lambda>M_tt.
      let psi = fadd (fmul xs1 xs) M_tt in
      bnd (rd (sys_u sys) tt) (\<lambda>u.
      let px = fadd (fsub (fsub xs (Fin m)) (fmul (Fin A) (fsub xs1 (Fin m)))) (Fin u);
          Q1 = fpow q (- 1);
          Q2 = fpow q (- 2);
          Q3 = fpow q (- 3) in
      bnd (wr2 (g_gradient g) 0 tt (fmul (fmul Q2 px) (Fin (1 - A)))) (\<lambda>gradient.
      bnd (wr2 gradient 1 tt
             (fsub (fmul Q2 (fsub (fsub psi (fmul (fmul (Fin m) xs1) (Fin (1 - A))))
                               (fmul (Fin A) eta1)))
                (fmul (fmul Q2 (Fin m)) px))) (\<lambda>gradient.
      bnd (wr2 gradient 2 tt
             (fsub (fmul Q3
                      (fadd (fsub (fadd (fsub eta (fmul (Fin (2 * A)) psi))
                                     (fmul (Fin (A powi 2)) eta1))
                               (fmul (fmul (fmul (Fin 2) (fsub xs (fmul (Fin A) xs1))) (Fin m))
                                  (Fin (1 - A))))
                         (Fin (m powi 2 * (1 - A) powi 2))))
                Q1)) (\<lambda>gradient.
      bnd (wr2 gradient 3 tt
             (fsub (fmul (fpow r (- 3))
                      (fadd (fsub (Fin (y powi 2)) (fmul (Fin 2) kappa)) eta))
                (fpow r (- 1)))) (\<lambda>gradient.
      Inr \<lparr>g_gradient = gradient,
           g_gradient0 =
             Some (map np_sum (py_slice0 gradient (sys_nParInference sys)))\<rparr>))))))))))))"

text \<open>Lines 154 to 173: the matrix of zeros and the loop; \<^verbatim>\<open>gradient0\<close> starts unbound.\<close>

definition rts_gradient :: "sys \<Rightarrow> kalman \<Rightarrow> sm_vars \<Rightarrow> error + gr_vars" where
  "rts_gradient sys self v =
     bnd (np_zeros (sys_T sys)) (\<lambda>row.
     for_loop (rts_grad_step sys self v) (py_range 1 (sys_T sys))
       \<lparr>g_gradient = replicate 4 row, g_gradient0 = None\<rparr>)"

text \<open>Lines 176 and 177: the derivatives of the log-prior.\<close>

definition rts_prior_step :: "sys \<Rightarrow> int \<Rightarrow> gr_vars \<Rightarrow> error + gr_vars" where
  "rts_prior_step sys nn g =
     (case g_gradient0 g of
        None \<Rightarrow> Inl UnboundLocalError
      | Some gradient0 \<Rightarrow>
          bnd (rd gradient0 nn) (\<lambda>x.
          bnd (wr gradient0 nn (fadd (sys_dprior1 sys nn) x)) (\<lambda>gradient0'.
          Inr (g\<lparr>g_gradient0 := Some gradient0'\<rparr>))))"

definition rts_prior :: "sys \<Rightarrow> gr_vars \<Rightarrow> error + gr_vars" where
  "rts_prior sys g = for_loop (rts_prior_step sys) (py_range 0 (sys_nParInference sys)) g"

text \<open>Lines 183 to 187: the output.\<close>

definition rts_output :: "sys \<Rightarrow> kalman \<Rightarrow> sm_vars \<Rightarrow> gr_vars \<Rightarrow> error + smoother" where
  "rts_output sys self v g =
     (case g_gradient0 g of
        None \<Rightarrow> Inl UnboundLocalError
      | Some gradient0 \<Rightarrow>
          Inr \<lparr>self_kf = self, self_Ps = r_Ps v, self_xhats = r_xhats v,
               self_gradient = py_slice0 gradient0 (sys_nParInference sys),
               self_gradient1 = py_slice0 (g_gradient g) (sys_nParInference sys),
               loc_J = r_J v, loc_M = r_M v\<rparr>)"

text \<open>\<^verbatim>\<open>rts\<close>: the filter first, then the stages above in the order of the source.\<close>

definition rts :: "sys \<Rightarrow> error + smoother" where
  "rts sys =
     bnd (kf sys) (\<lambda>self.
     bnd (rts_init sys self) (\<lambda>v.
     bnd (rts_backward sys self v) (\<lambda>v.
     bnd (rts_lagone sys self v) (\<lambda>v.
     bnd (rts_gradient sys self v) (\<lambda>g.
     bnd (rts_prior sys g) (\<lambda>g.
     rts_output sys self v g))))))"

subsection \<open>Well-formed models and the invariant of the filter loop\<close>

text \<open>The lengths of the local arrays of \<^verbatim>\<open>kf\<close> for \<open>T = n\<close>.\<close>

definition kf_lens :: "nat \<Rightarrow> kf_vars \<Rightarrow> bool" where
  "kf_lens n v \<longleftrightarrow>
     length (v_S v) = n \<and> length (v_K v) = n \<and> length (v_xhatp v) = Suc n \<and>
     length (v_xhatf v) = n \<and> length (v_yhatp v) = n \<and> length (v_Pf v) = n \<and>
     length (v_Pp v) = Suc n \<and> length (v_ll v) = n"

text \<open>The eight assignments of one iteration, as equations between the arrays at \<open>t\<close>.\<close>

definition kf_eqs :: "sys \<Rightarrow> real \<Rightarrow> real \<Rightarrow> real \<Rightarrow> real \<Rightarrow> real \<Rightarrow> kf_vars \<Rightarrow> nat \<Rightarrow> bool" where
  "kf_eqs sys m A C Q R v t \<longleftrightarrow>
     v_S v ! t = fadd (fmul (fmul (Fin C) (v_Pp v ! t)) (Fin C)) (Fin R) \<and>
     v_K v ! t = fdiv (fmul (v_Pp v ! t) (Fin C)) (v_S v ! t) \<and>
     v_yhatp v ! t = fmul (Fin C) (v_xhatp v ! t) \<and>
     v_xhatf v ! t =
       fadd (v_xhatp v ! t) (fmul (v_K v ! t) (fsub (Fin (sys_y sys ! t)) (v_yhatp v ! t))) \<and>
     v_xhatp v ! Suc t =
       fadd (fadd (fmul (Fin A) (v_xhatf v ! t)) (Fin (m * (1 - A)))) (Fin (sys_u sys ! t)) \<and>
     v_Pf v ! t = fsub (v_Pp v ! t) (fmul (fmul (v_K v ! t) (v_S v ! t)) (v_K v ! t)) \<and>
     v_Pp v ! Suc t = fadd (fmul (fmul (Fin A) (v_Pf v ! t)) (Fin A)) (Fin Q) \<and>
     v_ll v ! t =
       fsub (fmul (Fin (- (1 / 2))) (flog (fmul (Fin (2 * pi)) (v_S v ! t))))
         (fdiv (fmul (fmul (Fin (1 / 2)) (fsub (Fin (sys_y sys ! t)) (v_yhatp v ! t)))
                  (fsub (Fin (sys_y sys ! t)) (v_yhatp v ! t))) (v_S v ! t))"

text \<open>
  The invariant of the main loop after \<open>k\<close> iterations: the lengths, the initial state at
  index 0, and the equations at every time below \<open>k\<close>.
\<close>

definition kf_inv :: "sys \<Rightarrow> real \<Rightarrow> real \<Rightarrow> real \<Rightarrow> real \<Rightarrow> real \<Rightarrow> nat \<Rightarrow> fl \<Rightarrow> fl \<Rightarrow> nat \<Rightarrow> kf_vars \<Rightarrow> bool" where
  "kf_inv sys m A C Q R n p0 x0 k v \<longleftrightarrow>
     kf_lens n v \<and> v_Pp v ! 0 = p0 \<and> v_xhatp v ! 0 = x0 \<and>
     (\<forall>t<k. kf_eqs sys m A C Q R v t)"

text \<open>
  The models on which \<^verbatim>\<open>kf\<close> returns: a length that is not negative, four parameters,
  data for every time.
\<close>

definition wf_sys :: "sys \<Rightarrow> bool" where
  "wf_sys sys \<longleftrightarrow> 0 \<le> sys_T sys \<and> 4 \<le> length (sys_par sys) \<and>
     nat (sys_T sys) \<le> length (sys_y sys) \<and> nat (sys_T sys) \<le> length (sys_u sys)"

text \<open>
  The concrete scenario of the specification: \<^verbatim>\<open>par = [0.0, 0.9, 0.5, 0.5]\<close>, five
  observations, no input, no prior.
\<close>

definition sys_ex :: sys where
  "sys_ex = \<lparr>sys_par = [0, 9 / 10, 1 / 2, 1 / 2],
     sys_y = [1 / 10, - (1 / 5), 3 / 10, 1 / 20, - (1 / 10)], sys_u = [0, 0, 0, 0, 0],
     sys_T = 5, sys_nParInference = 4, sys_dprior1 = (\<lambda>i. Fin 0)\<rparr>"

text \<open>
  The lengths of the local arrays of \<^verbatim>\<open>rts\<close>, and of the arrays of the filter that
  \<^verbatim>\<open>rts\<close> reads, for \<open>T = n\<close>.
\<close>

definition sm_lens :: "nat \<Rightarrow> sm_vars \<Rightarrow> bool" where
  "sm_lens n v \<longleftrightarrow>
     length (r_J v) = n \<and> length (r_M v) = n \<and> length (r_xhats v) = n \<and> length (r_Ps v) = n"

definition self_lens :: "nat \<Rightarrow> kalman \<Rightarrow> bool" where
  "self_lens n self \<longleftrightarrow>
     length (self_xhatp self) = Suc n \<and> length (self_Pp self) = Suc n \<and>
     length (self_xhatf self) = n \<and> length (self_Pf self) = n \<and> length (self_K self) = n"

text \<open>The three assignments of one iteration of the backward loop, as equations at \<open>t\<close>.\<close>

definition back_eqs :: "kalman \<Rightarrow> sm_vars \<Rightarrow> nat \<Rightarrow> bool" where
  "back_eqs self v t \<longleftrightarrow>
     r_J v ! t = fdiv (fmul (self_Pf self ! t) (Fin (self_A self))) (self_Pp self ! Suc t) \<and>
     r_xhats v ! t =
       fadd (self_xhatf self ! t)
         (fmul (r_J v ! t) (fsub (r_xhats v ! Suc t) (self_xhatp self ! Suc t))) \<and>
     r_Ps v ! t =
       fadd (self_Pf self ! t)
         (fmul (fmul (r_J v ! t) (fsub (r_Ps v ! Suc t) (self_Pp self ! Suc t))) (r_J v ! t))"

text \<open>
  The invariant of the backward loop when the iterations \<open>n - 2, \<dots>, k\<close> are done: the
  entries below \<open>k\<close> are still the zeros of the allocation, the last entries are those of
  the filter, and the equations hold from \<open>k\<close> on.
\<close>

definition back_inv :: "kalman \<Rightarrow> nat \<Rightarrow> nat \<Rightarrow> sm_vars \<Rightarrow> bool" where
  "back_inv self n k v \<longleftrightarrow>
     sm_lens n v \<and> r_M v = replicate n (Fin 0) \<and>
     (\<forall>i<k. r_J v ! i = Fin 0) \<and> r_J v ! (n - 1) = Fin 0 \<and>
     (\<forall>i<k. i < n - 1 \<longrightarrow> r_xhats v ! i = Fin 0 \<and> r_Ps v ! i = Fin 0) \<and>
     r_xhats v ! (n - 1) = self_xhatf self ! (n - 1) \<and>
     r_Ps v ! (n - 1) = self_Pf self ! (n - 1) \<and>
     (\<forall>t. k \<le> t \<and> t < n - 1 \<longrightarrow> back_eqs self v t)"

text \<open>The assignment of the second loop, as an equation at \<open>t\<close>.\<close>

definition lag_eqs :: "kalman \<Rightarrow> sm_vars \<Rightarrow> nat \<Rightarrow> bool" where
  "lag_eqs self v t \<longleftrightarrow>
     r_M v ! t =
       fadd (fmul (self_Pf self ! t) (r_J v ! (t - 1)))
         (fmul (fmul (r_J v ! (t - 1))
                  (fsub (r_M v ! Suc t) (fmul (Fin (self_A self)) (self_Pf self ! t))))
            (r_J v ! (t - 1)))"

text \<open>
  The invariant of the second loop, which writes \<^verbatim>\<open>M\<close> only (\<open>v0\<close> is the state it
  starts from).
\<close>

definition lag_inv :: "kalman \<Rightarrow> nat \<Rightarrow> sm_vars \<Rightarrow> nat \<Rightarrow> sm_vars \<Rightarrow> bool" where
  "lag_inv self n v0 k v \<longleftrightarrow>
     r_J v = r_J v0 \<and> r_xhats v = r_xhats v0 \<and> r_Ps v = r_Ps v0 \<and> length (r_M v) = n \<and>
     r_M v ! (n - 1) =
       fmul (fmul (fsub (Fin 1) (self_K self ! (n - 1))) (Fin (self_A self)))
         (self_Pf self ! (n - 1)) \<and>
     (\<forall>i<k. i < n - 1 \<longrightarrow> r_M v ! i = Fin 0) \<and>
     (\<forall>t. k \<le> t \<and> t < n - 1 \<longrightarrow> lag_eqs self v t)"

text \<open>
  The sufficient statistics and the four partial scores, as the specification writes
  them.
\<close>

definition spec_kappa :: "fl \<Rightarrow> real \<Rightarrow> fl" where
  "spec_kappa xhats_t y_t = fmul xhats_t (Fin y_t)"

definition spec_eta :: "fl \<Rightarrow> fl \<Rightarrow> fl" where
  "spec_eta xhats_t Ps_t = fadd (fmul xhats_t xhats_t) Ps_t"

definition spec_psi :: "fl \<Rightarrow> fl \<Rightarrow> fl \<Rightarrow> fl" where
  "spec_psi xhats_t1 xhats_t M_t = fadd (fmul xhats_t1 xhats_t) M_t"

definition spec_px :: "real \<Rightarrow> real \<Rightarrow> fl \<Rightarrow> fl \<Rightarrow> real \<Rightarrow> fl" where
  "spec_px m A xhats_t xhats_t1 u_t =
     fadd (fsub (fsub xhats_t (Fin m)) (fmul (Fin A) (fsub xhats_t1 (Fin m)))) (Fin u_t)"

definition spec_dmu :: "real \<Rightarrow> real \<Rightarrow> fl \<Rightarrow> fl" where
  "spec_dmu A q px = fmul (fmul (fpow q (- 2)) px) (Fin (1 - A))"

definition spec_dphi :: "real \<Rightarrow> real \<Rightarrow> real \<Rightarrow> fl \<Rightarrow> fl \<Rightarrow> fl \<Rightarrow> fl \<Rightarrow> fl" where
  "spec_dphi m A q xhats_t1 psi eta1 px =
     fsub (fmul (fpow q (- 2))
             (fsub (fsub psi (fmul (fmul (Fin m) xhats_t1) (Fin (1 - A)))) (fmul (Fin A) eta1)))
       (fmul (fmul (fpow q (- 2)) (Fin m)) px)"

definition spec_dsigv :: "real \<Rightarrow> real \<Rightarrow> real \<Rightarrow> fl \<Rightarrow> fl \<Rightarrow> fl \<Rightarrow> fl \<Rightarrow> fl \<Rightarrow> fl" where
  "spec_dsigv m A q xhats_t xhats_t1 eta psi eta1 =
     fsub (fmul (fpow q (- 3))
             (fadd (fsub (fadd (fsub eta (fmul (Fin (2 * A)) psi)) (fmul (Fin (A\<^sup>2)) eta1))
                      (fmul (fmul (fmul (Fin 2) (fsub xhats_t (fmul (Fin A) xhats_t1))) (Fin m))
                         (Fin (1 - A))))
                (Fin (m\<^sup>2 * (1 - A)\<^sup>2))))
       (fpow q (- 1))"

definition spec_dsige :: "real \<Rightarrow> real \<Rightarrow> fl \<Rightarrow> fl \<Rightarrow> fl" where
  "spec_dsige r y_t kappa eta =
     fsub (fmul (fpow r (- 3)) (fadd (fsub (Fin (y_t\<^sup>2)) (fmul (Fin 2) kappa)) eta))
       (fpow r (- 1))"

text \<open>Component \<open>i\<close> of the score at time \<open>t\<close>, from the smoothed arrays.\<close>

definition spec_score ::
  "real \<Rightarrow> real \<Rightarrow> real \<Rightarrow> real \<Rightarrow> real list \<Rightarrow> real list \<Rightarrow> fl list \<Rightarrow> fl list \<Rightarrow> fl list \<Rightarrow> nat \<Rightarrow> nat \<Rightarrow> fl" where
  "spec_score m A q r y u xhats Ps M i t =
     (let kappa = spec_kappa (xhats ! t) (y ! t);
          eta = spec_eta (xhats ! t) (Ps ! t);
          eta1 = spec_eta (xhats ! (t - 1)) (Ps ! (t - 1));
          psi = spec_psi (xhats ! (t - 1)) (xhats ! t) (M ! t);
          px = spec_px m A (xhats ! t) (xhats ! (t - 1)) (u ! t)
      in if i = 0 then spec_dmu A q px
         else if i = 1 then spec_dphi m A q (xhats ! (t - 1)) psi eta1 px
         else if i = 2 then spec_dsigv m A q (xhats ! t) (xhats ! (t - 1)) eta psi eta1
         else spec_dsige r (y ! t) kappa eta)"

text \<open>The same on the local arrays of a run.\<close>

definition score :: "sys \<Rightarrow> kalman \<Rightarrow> sm_vars \<Rightarrow> nat \<Rightarrow> nat \<Rightarrow> fl" where
  "score sys self v =
     spec_score (self_m self) (self_A self) (self_q self) (self_r self) (sys_y sys) (sys_u sys)
       (r_xhats v) (r_Ps v) (r_M v)"

text \<open>
  A row of \<^verbatim>\<open>gradient\<close> when the iterations \<open>1, \<dots>, k - 1\<close> of the gradient loop are
  done, and the invariant of that loop.
\<close>

definition grad_row_ok :: "(nat \<Rightarrow> fl) \<Rightarrow> nat \<Rightarrow> nat \<Rightarrow> fl list \<Rightarrow> bool" where
  "grad_row_ok f n k row \<longleftrightarrow>
     length row = n \<and> row ! 0 = Fin 0 \<and> (\<forall>t. 1 \<le> t \<and> t < k \<longrightarrow> row ! t = f t)"

definition grad_inv :: "sys \<Rightarrow> kalman \<Rightarrow> sm_vars \<Rightarrow> nat \<Rightarrow> nat \<Rightarrow> gr_vars \<Rightarrow> bool" where
  "grad_inv sys self v n k g \<longleftrightarrow>
     (\<exists>r0 r1 r2 r3. g_gradient g = [r0, r1, r2, r3] \<and>
        grad_row_ok (score sys self v 0) n k r0 \<and> grad_row_ok (score sys self v 1) n k r1 \<and>
        grad_row_ok (score sys self v 2) n k r2 \<and> grad_row_ok (score sys self v 3) n k r3) \<and>
     g_gradient0 g =
       (if 1 < k then Some (map np_sum (py_slice0 (g_gradient g) (sys_nParInference sys)))
        else None)"

text \<open>
  The invariant of the loop over the log-prior derivatives: \<open>h0\<close> is \<^verbatim>\<open>gradient0\<close>
  before the loop.
\<close>

definition prior_inv :: "sys \<Rightarrow> fl list list \<Rightarrow> fl list \<Rightarrow> nat \<Rightarrow> gr_vars \<Rightarrow> bool" where
  "prior_inv sys G h0 k g \<longleftrightarrow>
     g_gradient g = G \<and>
     (\<exists>h. g_gradient0 g = Some h \<and> length h = length h0 \<and>
        (\<forall>i<k. h ! i = fadd (sys_dprior1 sys (int i)) (h0 ! i)) \<and>
        (\<forall>i. k \<le> i \<and> i < length h0 \<longrightarrow> h ! i = h0 ! i))"

text \<open>What the two backward loops establish, for \<open>T = n \<ge> 2\<close>.\<close>

definition smooth_ok :: "kalman \<Rightarrow> nat \<Rightarrow> sm_vars \<Rightarrow> bool" where
  "smooth_ok self n v \<longleftrightarrow>
     sm_lens n v \<and> r_J v ! 0 = Fin 0 \<and> r_xhats v ! 0 = Fin 0 \<and> r_Ps v ! 0 = Fin 0 \<and>
     r_xhats v ! (n - 1) = self_xhatf self ! (n - 1) \<and>
     r_Ps v ! (n - 1) = self_Pf self ! (n - 1) \<and>
     (\<forall>t. 1 \<le> t \<and> t < n - 1 \<longrightarrow> back_eqs self v t) \<and>
     r_M v ! (n - 1) =
       fmul (fmul (fsub (Fin 1) (self_K self ! (n - 1))) (Fin (self_A self)))
         (self_Pf self ! (n - 1)) \<and>
     (\<forall>t. 1 \<le> t \<and> t < n - 1 \<longrightarrow> lag_eqs self v t)"

text \<open>The minimal smoother run: two observations.\<close>

definition sys_T2 :: sys where
  "sys_T2 = \<lparr>sys_par = [0, 9 / 10, 1 / 2, 1 / 2], sys_y = [1 / 10, - (1 / 5)], sys_u = [0, 0],
     sys_T = 2, sys_nParInference = 4, sys_dprior1 = (\<lambda>i. Fin 0)\<rparr>"

text \<open>
  A model with \<open>sigma_v = par[2] = 0\<close>, and \<open>nParInference = 2\<close> (the default of
  \<^verbatim>\<open>template_copyData\<close>), so that \<^verbatim>\<open>dprior1\<close> is asked for \<open>mu\<close> and \<open>phi\<close> only.
\<close>

definition sys_q0 :: sys where
  "sys_q0 = \<lparr>sys_par = [0, 9 / 10, 0, 1 / 2], sys_y = [1 / 10, - (1 / 5), 3 / 10],
     sys_u = [0, 0, 0], sys_T = 3, sys_nParInference = 2, sys_dprior1 = (\<lambda>i. Fin 0)\<rparr>"

text \<open>
  Models outside the preconditions of the specification: no parameter to infer, a negative
  length, no observation, one observation, five parameters to infer.
\<close>

definition sys_n0 :: sys where
  "sys_n0 = sys_T2\<lparr>sys_nParInference := 0\<rparr>"

definition sys_Tneg :: sys where
  "sys_Tneg = sys_ex\<lparr>sys_T := - 1\<rparr>"

definition sys_T0 :: sys where
  "sys_T0 = sys_ex\<lparr>sys_T := 0\<rparr>"

definition sys_T1 :: sys where
  "sys_T1 = sys_ex\<lparr>sys_T := 1\<rparr>"

definition sys_n5 :: sys where
  "sys_n5 = sys_ex\<lparr>sys_nParInference := 5\<rparr>"

section \<open>Properties\<close>

subsection \<open>Arithmetic, arrays and loops\<close>

lemma bnd_Inr [simp]: "bnd (Inr a) f = f a"
  by (simp add: bnd_def)

lemma bnd_Inl [simp]: "bnd (Inl e) f = Inl e"
  by (simp add: bnd_def)

lemma rd_nat [simp]: "k < length xs \<Longrightarrow> rd xs (int k) = Inr (xs ! k)"
  by (simp add: rd_def py_index_def)

lemma rd_nat_Suc [simp]: "Suc k < length xs \<Longrightarrow> rd xs (int k + 1) = Inr (xs ! Suc k)"
  using rd_nat [of "Suc k" xs] by (simp add: add.commute)

lemma wr_nat [simp]: "k < length xs \<Longrightarrow> wr xs (int k) a = Inr (xs[k := a])"
  by (simp add: wr_def py_index_def)

lemma wr_nat_Suc [simp]: "Suc k < length xs \<Longrightarrow> wr xs (int k + 1) a = Inr (xs[Suc k := a])"
  using wr_nat [of "Suc k" xs] by (simp add: add.commute)

lemma for_loop_append:
  "for_loop body (xs @ ys) s = bnd (for_loop body xs s) (for_loop body ys)"
  by (induction xs arbitrary: s) (auto simp: bnd_def split: sum.splits)

lemma py_range_nat: "py_range (int a) (int b) = map int [a..<b]"
proof (induction b)
  case 0
  then show ?case by (simp add: py_range_def)
next
  case (Suc b)
  show ?case
  proof (cases "a \<le> b")
    case True
    then have "[int a..int (Suc b) - 1] = [int a..int b - 1] @ [int b]"
      using upto_rec2 [of "int a" "int b"] by simp
    with Suc True show ?thesis by (simp add: py_range_def)
  next
    case False
    then show ?thesis by (simp add: py_range_def)
  qed
qed

lemma py_range_down_nat: "py_range_down (int b - 1) (int a - 1) = rev (map int [a..<b])"
  using py_range_nat [of a b] by (simp add: py_range_def py_range_down_def)

lemma for_loop_up_inv:
  assumes "P a s"
    and "\<And>k s. a \<le> k \<Longrightarrow> k < b \<Longrightarrow> P k s \<Longrightarrow> \<exists>s'. body (int k) s = Inr s' \<and> P (Suc k) s'"
    and "a \<le> b"
  shows "\<exists>s'. for_loop body (map int [a..<b]) s = Inr s' \<and> P b s'"
  using assms(3,2)
proof (induction b)
  case 0
  with assms(1) show ?case by simp
next
  case (Suc b)
  show ?case
  proof (cases "a = Suc b")
    case True
    with assms(1) show ?thesis by simp
  next
    case False
    with Suc.prems have ab: "a \<le> b" by simp
    from Suc.IH [OF ab] Suc.prems(2)
    obtain s1 where s1: "for_loop body (map int [a..<b]) s = Inr s1" "P b s1"
      by (metis le_SucI less_Suc_eq)
    from Suc.prems(2) [OF ab _ s1(2)]
    obtain s2 where s2: "body (int b) s1 = Inr s2" "P (Suc b) s2" by auto
    from ab s1 s2 show ?thesis by (simp add: for_loop_append)
  qed
qed

lemma for_loop_down_inv:
  assumes "P b s"
    and "\<And>k s. a \<le> k \<Longrightarrow> k < b \<Longrightarrow> P (Suc k) s \<Longrightarrow> \<exists>s'. body (int k) s = Inr s' \<and> P k s'"
    and "a \<le> b"
  shows "\<exists>s'. for_loop body (rev (map int [a..<b])) s = Inr s' \<and> P a s'"
  using assms(3,1,2)
proof (induction b arbitrary: s)
  case 0
  then show ?case by simp
next
  case (Suc b)
  show ?case
  proof (cases "a = Suc b")
    case True
    with Suc.prems(2) show ?thesis by simp
  next
    case False
    with Suc.prems have ab: "a \<le> b" by simp
    from Suc.prems(3) [OF ab _ Suc.prems(2)]
    obtain s1 where s1: "body (int b) s = Inr s1" "P b s1" by auto
    have "\<exists>s'. for_loop body (rev (map int [a..<b])) s1 = Inr s' \<and> P a s'"
      using Suc.IH [OF ab s1(2)] Suc.prems(3) by (metis less_Suc_eq)
    with ab s1 show ?thesis by simp
  qed
qed

subsection \<open>The filter\<close>

lemma fmul_one_left [simp]: "fmul (Fin 1) x = x"
  by (cases x) simp_all

lemma fmul_one_right [simp]: "fmul x (Fin 1) = x"
  by (cases x) simp_all

lemma fadd_zero_left [simp]: "fadd (Fin 0) x = x"
  by (cases x) simp_all

lemma kf_step_run:
  assumes "kf_lens n v" and "k < n" and "k < length (sys_y sys)" and "k < length (sys_u sys)"
  shows "kf_step sys m A C Q R (int k) v =
    (let Pp_t = v_Pp v ! k; xp = v_xhatp v ! k; y = Fin (sys_y sys ! k);
         s = fadd (fmul (fmul (Fin C) Pp_t) (Fin C)) (Fin R);
         g = fdiv (fmul Pp_t (Fin C)) s;
         yh = fmul (Fin C) xp;
         xf = fadd xp (fmul g (fsub y yh));
         pf = fsub Pp_t (fmul (fmul g s) g)
     in Inr \<lparr>v_S = (v_S v)[k := s], v_K = (v_K v)[k := g],
           v_xhatp = (v_xhatp v)[Suc k :=
              fadd (fadd (fmul (Fin A) xf) (Fin (m * (1 - A)))) (Fin (sys_u sys ! k))],
           v_xhatf = (v_xhatf v)[k := xf], v_yhatp = (v_yhatp v)[k := yh],
           v_Pf = (v_Pf v)[k := pf],
           v_Pp = (v_Pp v)[Suc k := fadd (fmul (fmul (Fin A) pf) (Fin A)) (Fin Q)],
           v_ll = (v_ll v)[k :=
              fsub (fmul (Fin (- (1 / 2))) (flog (fmul (Fin (2 * pi)) s)))
                (fdiv (fmul (fmul (Fin (1 / 2)) (fsub y yh)) (fsub y yh)) s)]\<rparr>)"
  using assms by (simp add: kf_step_def kf_lens_def Let_def)

lemma kf_step_inv:
  assumes inv: "kf_inv sys m A C Q R n p0 x0 k v" and kn: "k < n"
    and "n \<le> length (sys_y sys)" and "n \<le> length (sys_u sys)"
  shows "\<exists>v'. kf_step sys m A C Q R (int k) v = Inr v' \<and> kf_inv sys m A C Q R n p0 x0 (Suc k) v'"
proof -
  from assms have lens: "kf_lens n v" and ky: "k < length (sys_y sys)" and ku: "k < length (sys_u sys)"
    by (simp_all add: kf_inv_def)
  define y where "y = Fin (sys_y sys ! k)"
  define s where "s = fadd (fmul (fmul (Fin C) (v_Pp v ! k)) (Fin C)) (Fin R)"
  define g where "g = fdiv (fmul (v_Pp v ! k) (Fin C)) s"
  define yh where "yh = fmul (Fin C) (v_xhatp v ! k)"
  define xf where "xf = fadd (v_xhatp v ! k) (fmul g (fsub y yh))"
  define pf where "pf = fsub (v_Pp v ! k) (fmul (fmul g s) g)"
  define xp' where "xp' = fadd (fadd (fmul (Fin A) xf) (Fin (m * (1 - A)))) (Fin (sys_u sys ! k))"
  define pp' where "pp' = fadd (fmul (fmul (Fin A) pf) (Fin A)) (Fin Q)"
  define l where "l = fsub (fmul (Fin (- (1 / 2))) (flog (fmul (Fin (2 * pi)) s)))
                (fdiv (fmul (fmul (Fin (1 / 2)) (fsub y yh)) (fsub y yh)) s)"
  define v' where "v' = \<lparr>v_S = (v_S v)[k := s], v_K = (v_K v)[k := g],
           v_xhatp = (v_xhatp v)[Suc k := xp'],
           v_xhatf = (v_xhatf v)[k := xf], v_yhatp = (v_yhatp v)[k := yh],
           v_Pf = (v_Pf v)[k := pf], v_Pp = (v_Pp v)[Suc k := pp'],
           v_ll = (v_ll v)[k := l]\<rparr>"
  have step: "kf_step sys m A C Q R (int k) v = Inr v'"
    unfolding kf_step_run [OF lens kn ky ku] Let_def v'_def l_def pp'_def xp'_def pf_def
      xf_def yh_def g_def s_def y_def by (rule refl)
  have fields: "v_S v' = (v_S v)[k := s]" "v_K v' = (v_K v)[k := g]"
    "v_xhatp v' = (v_xhatp v)[Suc k := xp']" "v_xhatf v' = (v_xhatf v)[k := xf]"
    "v_yhatp v' = (v_yhatp v)[k := yh]" "v_Pf v' = (v_Pf v)[k := pf]"
    "v_Pp v' = (v_Pp v)[Suc k := pp']" "v_ll v' = (v_ll v)[k := l]"
    by (simp_all add: v'_def)
  have lens': "kf_lens n v'"
    using lens by (simp add: kf_lens_def fields)
  have first: "v_Pp v' ! 0 = p0" "v_xhatp v' ! 0 = x0"
    using inv by (simp_all add: kf_inv_def fields)
  have old: "kf_eqs sys m A C Q R v' t" if "t < k" for t
  proof -
    from inv that have "kf_eqs sys m A C Q R v t" by (simp add: kf_inv_def)
    with that show ?thesis by (simp add: kf_eqs_def fields)
  qed
  have new: "kf_eqs sys m A C Q R v' k"
    using lens kn
    by (simp add: kf_eqs_def kf_lens_def fields l_def pp'_def xp'_def pf_def xf_def yh_def
        g_def s_def y_def)
  from old new have "\<forall>t<Suc k. kf_eqs sys m A C Q R v' t"
    by (simp add: less_Suc_eq)
  with step lens' first show ?thesis by (simp add: kf_inv_def)
qed

lemma kf_loop_run:
  assumes "kf_lens n v0" and "n \<le> length (sys_y sys)" and "n \<le> length (sys_u sys)"
  shows "\<exists>v. for_loop (kf_step sys m A C Q R) (py_range 0 (int n)) v0 = Inr v \<and>
    kf_inv sys m A C Q R n (v_Pp v0 ! 0) (v_xhatp v0 ! 0) n v"
proof -
  have "\<exists>v. for_loop (kf_step sys m A C Q R) (map int [0..<n]) v0 = Inr v \<and>
    kf_inv sys m A C Q R n (v_Pp v0 ! 0) (v_xhatp v0 ! 0) n v"
  proof (rule for_loop_up_inv [where P = "kf_inv sys m A C Q R n (v_Pp v0 ! 0) (v_xhatp v0 ! 0)"])
    show "kf_inv sys m A C Q R n (v_Pp v0 ! 0) (v_xhatp v0 ! 0) 0 v0"
      using assms(1) by (simp add: kf_inv_def)
    show "\<exists>v'. kf_step sys m A C Q R (int k) v = Inr v' \<and>
        kf_inv sys m A C Q R n (v_Pp v0 ! 0) (v_xhatp v0 ! 0) (Suc k) v'"
      if "k < n" and "kf_inv sys m A C Q R n (v_Pp v0 ! 0) (v_xhatp v0 ! 0) k v" for k v
      using that assms(2,3) by (intro kf_step_inv)
    show "0 \<le> n" by simp
  qed
  then show ?thesis using py_range_nat [of 0 n] by simp
qed

lemma kf_run:
  assumes "wf_sys sys"
  shows "\<exists>v. kf sys = Inr
      \<lparr>self_xo = 0, self_Po = 1 / 100000, self_m = sys_par sys ! 0, self_A = sys_par sys ! 1,
       self_C = 1, self_Q = (sys_par sys ! 2)\<^sup>2, self_q = sys_par sys ! 2,
       self_R = (sys_par sys ! 3)\<^sup>2, self_r = sys_par sys ! 3,
       self_ll = np_sum (v_ll v), self_llt = v_ll v,
       self_xhatf = v_xhatf v, self_xhatp = v_xhatp v, self_K = v_K v,
       self_Pp = v_Pp v, self_Pf = v_Pf v, loc_S = v_S v, loc_yhatp = v_yhatp v\<rparr> \<and>
     kf_inv sys (sys_par sys ! 0) (sys_par sys ! 1) 1 ((sys_par sys ! 2)\<^sup>2)
       ((sys_par sys ! 3)\<^sup>2) (nat (sys_T sys)) (Fin (1 / 100000)) (Fin 0) (nat (sys_T sys)) v"
proof -
  define n where "n = nat (sys_T sys)"
  define v0 where "v0 = \<lparr>v_S = replicate n (Fin 0), v_K = replicate n (Fin 0),
     v_xhatp = (replicate (Suc n) (Fin 0))[0 := Fin 0], v_xhatf = replicate n (Fin 0),
     v_yhatp = replicate n (Fin 0), v_Pf = replicate n (Fin 0),
     v_Pp = (replicate (Suc n) (Fin 0))[0 := Fin (1 / 100000)], v_ll = replicate n (Fin 0)\<rparr>"
  from assms have T: "sys_T sys = int n" and ny: "n \<le> length (sys_y sys)"
    and nu: "n \<le> length (sys_u sys)" and par: "4 \<le> length (sys_par sys)"
    by (simp_all add: wf_sys_def n_def)
  have lens0: "kf_lens n v0" by (simp add: kf_lens_def v0_def)
  have first: "v_Pp v0 ! 0 = Fin (1 / 100000)" "v_xhatp v0 ! 0 = Fin 0"
    by (simp_all add: v0_def)
  have zeros: "np_zeros (int n) = Inr (replicate n (Fin 0))"
    "np_zeros (int n + 1) = Inr (replicate (Suc n) (Fin 0))"
    by (simp_all add: np_zeros_def nat_add_distrib)
  have pars: "rd (sys_par sys) 0 = Inr (sys_par sys ! 0)" "rd (sys_par sys) 1 = Inr (sys_par sys ! 1)"
    "rd (sys_par sys) 2 = Inr (sys_par sys ! 2)" "rd (sys_par sys) 3 = Inr (sys_par sys ! 3)"
    using par by (auto simp: rd_def py_index_def)
  have wrs: "wr (replicate (Suc n) (Fin 0)) 0 a = Inr ((replicate (Suc n) (Fin 0))[0 := a])" for a
    using wr_nat [of 0 "replicate (Suc n) (Fin 0)" a] by simp
  from kf_loop_run [OF lens0 ny nu, of "sys_par sys ! 0" "sys_par sys ! 1" 1
      "(sys_par sys ! 2)\<^sup>2" "(sys_par sys ! 3)\<^sup>2"]
  obtain v where v: "for_loop (kf_step sys (sys_par sys ! 0) (sys_par sys ! 1) 1
      ((sys_par sys ! 2)\<^sup>2) ((sys_par sys ! 3)\<^sup>2)) (py_range 0 (int n)) v0 = Inr v"
    "kf_inv sys (sys_par sys ! 0) (sys_par sys ! 1) 1 ((sys_par sys ! 2)\<^sup>2)
       ((sys_par sys ! 3)\<^sup>2) n (Fin (1 / 100000)) (Fin 0) n v"
    unfolding first by blast
  have "kf sys = Inr
      \<lparr>self_xo = 0, self_Po = 1 / 100000, self_m = sys_par sys ! 0, self_A = sys_par sys ! 1,
       self_C = 1, self_Q = (sys_par sys ! 2)\<^sup>2, self_q = sys_par sys ! 2,
       self_R = (sys_par sys ! 3)\<^sup>2, self_r = sys_par sys ! 3,
       self_ll = np_sum (v_ll v), self_llt = v_ll v,
       self_xhatf = v_xhatf v, self_xhatp = v_xhatp v, self_K = v_K v,
       self_Pp = v_Pp v, self_Pf = v_Pf v, loc_S = v_S v, loc_yhatp = v_yhatp v\<rparr>"
    unfolding kf_def Let_def T zeros pars bnd_Inr wrs
    using v(1) by (simp add: v0_def)
  with v(2) show ?thesis unfolding n_def by blast
qed

lemma kf_eqs_finite:
  assumes eqs: "kf_eqs sys m A 1 Q R v t"
    and pp: "v_Pp v ! t = Fin pp" "0 \<le> pp" and R: "0 < R" and x: "v_xhatp v ! t = Fin x"
  shows "v_S v ! t = Fin (pp + R)" and "v_K v ! t = Fin (pp / (pp + R))"
    and "v_yhatp v ! t = Fin x"
    and "v_xhatf v ! t = Fin (x + pp / (pp + R) * (sys_y sys ! t - x))"
    and "v_Pf v ! t = Fin (pp * R / (pp + R))"
    and "v_xhatp v ! Suc t =
         Fin (A * (x + pp / (pp + R) * (sys_y sys ! t - x)) + m * (1 - A) + sys_u sys ! t)"
    and "v_Pp v ! Suc t = Fin (A\<^sup>2 * (pp * R / (pp + R)) + Q)"
    and "v_ll v ! t =
         Fin (- (1 / 2) * ln (2 * pi * (pp + R)) - 1 / 2 * (sys_y sys ! t - x)\<^sup>2 / (pp + R))"
proof -
  from pp R have s: "pp + R \<noteq> 0" and s0: "0 < pp + R" by simp_all
  from eqs have e1: "v_S v ! t = fadd (fmul (fmul (Fin 1) (v_Pp v ! t)) (Fin 1)) (Fin R)"
    and e2: "v_K v ! t = fdiv (fmul (v_Pp v ! t) (Fin 1)) (v_S v ! t)"
    and e3: "v_yhatp v ! t = fmul (Fin 1) (v_xhatp v ! t)"
    and e4: "v_xhatf v ! t =
       fadd (v_xhatp v ! t) (fmul (v_K v ! t) (fsub (Fin (sys_y sys ! t)) (v_yhatp v ! t)))"
    and e5: "v_xhatp v ! Suc t =
       fadd (fadd (fmul (Fin A) (v_xhatf v ! t)) (Fin (m * (1 - A)))) (Fin (sys_u sys ! t))"
    and e6: "v_Pf v ! t = fsub (v_Pp v ! t) (fmul (fmul (v_K v ! t) (v_S v ! t)) (v_K v ! t))"
    and e7: "v_Pp v ! Suc t = fadd (fmul (fmul (Fin A) (v_Pf v ! t)) (Fin A)) (Fin Q)"
    and e8: "v_ll v ! t =
       fsub (fmul (Fin (- (1 / 2))) (flog (fmul (Fin (2 * pi)) (v_S v ! t))))
         (fdiv (fmul (fmul (Fin (1 / 2)) (fsub (Fin (sys_y sys ! t)) (v_yhatp v ! t)))
                  (fsub (Fin (sys_y sys ! t)) (v_yhatp v ! t))) (v_S v ! t))"
    by (simp_all add: kf_eqs_def)
  show S: "v_S v ! t = Fin (pp + R)"
    unfolding e1 pp(1) by simp
  show K: "v_K v ! t = Fin (pp / (pp + R))"
    unfolding e2 S pp(1) using s by simp
  show yh: "v_yhatp v ! t = Fin x"
    unfolding e3 x by simp
  show xf: "v_xhatf v ! t = Fin (x + pp / (pp + R) * (sys_y sys ! t - x))"
    unfolding e4 K yh x by simp
  have "pp / (pp + R) * (pp + R) = pp" using s by simp
  then have "pp - pp / (pp + R) * (pp + R) * (pp / (pp + R)) = pp - pp * (pp / (pp + R))"
    by simp
  also have "\<dots> = pp * R / (pp + R)"
    using s by (simp add: field_simps)
  finally have pf: "pp - pp / (pp + R) * (pp + R) * (pp / (pp + R)) = pp * R / (pp + R)" .
  have "v_Pf v ! t = Fin (pp - pp / (pp + R) * (pp + R) * (pp / (pp + R)))"
    unfolding e6 K S pp(1) by simp
  then show Pf: "v_Pf v ! t = Fin (pp * R / (pp + R))"
    unfolding pf .
  show "v_xhatp v ! Suc t =
         Fin (A * (x + pp / (pp + R) * (sys_y sys ! t - x)) + m * (1 - A) + sys_u sys ! t)"
    unfolding e5 xf by simp
  have "v_Pp v ! Suc t = Fin (A * (pp * R / (pp + R)) * A + Q)"
    unfolding e7 Pf by simp
  moreover have "A * (pp * R / (pp + R)) * A = A\<^sup>2 * (pp * R / (pp + R))"
    by (simp add: power2_eq_square)
  ultimately show "v_Pp v ! Suc t = Fin (A\<^sup>2 * (pp * R / (pp + R)) + Q)"
    by simp
  have "0 < 2 * pi * (pp + R)" using s0 by simp
  then have l: "flog (Fin (2 * pi * (pp + R))) = Fin (ln (2 * pi * (pp + R)))"
    unfolding flog.simps by (simp only: not_le [symmetric] if_False)
  have d: "fdiv (Fin a) (Fin (pp + R)) = Fin (a / (pp + R))" for a
    unfolding fdiv.simps using s by (simp only: if_False)
  have "v_ll v ! t = Fin (- (1 / 2) * ln (2 * pi * (pp + R))
      - 1 / 2 * (sys_y sys ! t - x) * (sys_y sys ! t - x) / (pp + R))"
    unfolding e8 S yh fmul.simps fsub.simps l d ..
  then show "v_ll v ! t =
         Fin (- (1 / 2) * ln (2 * pi * (pp + R)) - 1 / 2 * (sys_y sys ! t - x)\<^sup>2 / (pp + R))"
    by (simp add: power2_eq_square)
qed

lemma np_sum_list: "np_sum xs = (if list_all is_fin xs then Fin (sum_list (map fin_val xs)) else NonFinite)"
proof (induction xs)
  case Nil
  show ?case by simp
next
  case (Cons x xs)
  then show ?case by (cases x) simp_all
qed

lemma np_sum_nth:
  "np_sum xs = (if \<forall>t<length xs. is_fin (xs ! t)
                then Fin (\<Sum>t<length xs. fin_val (xs ! t)) else NonFinite)"
proof -
  have "sum_list (map fin_val xs) = (\<Sum>t<length xs. fin_val (xs ! t))"
    by (simp add: sum_list_sum_nth atLeast0LessThan)
  then show ?thesis by (simp add: np_sum_list list_all_length)
qed

lemma bnd_eq_Inr: "bnd r f = Inr b \<longleftrightarrow> (\<exists>a. r = Inr a \<and> f a = Inr b)"
  by (cases r) simp_all

lemma wf_sys_ex: "wf_sys sys_ex"
  by (simp add: wf_sys_def sys_ex_def)

lemma fmul_assoc: "fmul (fmul a b) c = fmul a (fmul b c)"
  by (cases a; cases b; cases c) simp_all

text \<open>
  Claim C1. For a well-formed model (\<open>T \<ge> 0\<close>, four parameters, \<open>y\<close> and \<open>u\<close> with at
  least \<open>T\<close> entries) \<^verbatim>\<open>kf\<close> returns, with \<open>m = par[0]\<close>, \<open>A = par[1]\<close>,
  \<open>Q = par[2]\<^sup>2\<close>, \<open>R = par[3]\<^sup>2\<close> and the observation matrix \<open>C = 1\<close>; the recursion
  starts from \<open>xhatp\<^sub>0 = 0\<close> and \<open>Pp\<^sub>0 = 10\<^sup>-\<^sup>5\<close>, and at every \<open>t < T\<close> the arrays
  satisfy \<open>S\<^sub>t = Pp\<^sub>t + R\<close>, \<open>K\<^sub>t = Pp\<^sub>t / S\<^sub>t\<close>, \<open>yhatp\<^sub>t = xhatp\<^sub>t\<close>,
  \<open>xhatf\<^sub>t = xhatp\<^sub>t + K\<^sub>t (y\<^sub>t - yhatp\<^sub>t)\<close>, \<open>Pf\<^sub>t = Pp\<^sub>t - K\<^sub>t S\<^sub>t K\<^sub>t\<close>,
  \<open>xhatp\<^sub>t\<^sub>+\<^sub>1 = A xhatf\<^sub>t + m (1 - A) + u\<^sub>t\<close>, \<open>Pp\<^sub>t\<^sub>+\<^sub>1 = A Pf\<^sub>t A + Q\<close> and
  \<open>ll\<^sub>t = - ln (2 \<pi> S\<^sub>t) / 2 - (y\<^sub>t - yhatp\<^sub>t)\<^sup>2 / 2 / S\<^sub>t\<close>, in the arithmetic of the
  program (a division by zero gives a non-finite value). The start and the equations
  fix every entry of the eight arrays.
\<close>

theorem kf_recursion:
  assumes "wf_sys sys"
  shows "\<exists>self. kf sys = Inr self \<and>
     self_m self = sys_par sys ! 0 \<and> self_A self = sys_par sys ! 1 \<and>
     self_Q self = (sys_par sys ! 2)\<^sup>2 \<and> self_R self = (sys_par sys ! 3)\<^sup>2 \<and>
     self_C self = 1 \<and>
     self_xhatp self ! 0 = Fin 0 \<and> self_Pp self ! 0 = Fin (1 / 100000) \<and>
     (\<forall>t<nat (sys_T sys).
        loc_S self ! t = fadd (self_Pp self ! t) (Fin (self_R self)) \<and>
        self_K self ! t = fdiv (self_Pp self ! t) (loc_S self ! t) \<and>
        loc_yhatp self ! t = self_xhatp self ! t \<and>
        self_xhatf self ! t =
          fadd (self_xhatp self ! t)
            (fmul (self_K self ! t) (fsub (Fin (sys_y sys ! t)) (loc_yhatp self ! t))) \<and>
        self_Pf self ! t =
          fsub (self_Pp self ! t)
            (fmul (fmul (self_K self ! t) (loc_S self ! t)) (self_K self ! t)) \<and>
        self_xhatp self ! Suc t =
          fadd (fadd (fmul (Fin (self_A self)) (self_xhatf self ! t))
                  (Fin (self_m self * (1 - self_A self))))
            (Fin (sys_u sys ! t)) \<and>
        self_Pp self ! Suc t =
          fadd (fmul (fmul (Fin (self_A self)) (self_Pf self ! t)) (Fin (self_A self)))
            (Fin (self_Q self)) \<and>
        self_llt self ! t =
          fsub (fmul (Fin (- (1 / 2))) (flog (fmul (Fin (2 * pi)) (loc_S self ! t))))
            (fdiv (fmul (Fin (1 / 2))
                     (fmul (fsub (Fin (sys_y sys ! t)) (loc_yhatp self ! t))
                        (fsub (Fin (sys_y sys ! t)) (loc_yhatp self ! t))))
               (loc_S self ! t)))"
proof -
  from kf_run [OF assms] obtain v self where
    self: "kf sys = Inr self" "self =
      \<lparr>self_xo = 0, self_Po = 1 / 100000, self_m = sys_par sys ! 0, self_A = sys_par sys ! 1,
       self_C = 1, self_Q = (sys_par sys ! 2)\<^sup>2, self_q = sys_par sys ! 2,
       self_R = (sys_par sys ! 3)\<^sup>2, self_r = sys_par sys ! 3,
       self_ll = np_sum (v_ll v), self_llt = v_ll v,
       self_xhatf = v_xhatf v, self_xhatp = v_xhatp v, self_K = v_K v,
       self_Pp = v_Pp v, self_Pf = v_Pf v, loc_S = v_S v, loc_yhatp = v_yhatp v\<rparr>"
    and inv: "kf_inv sys (sys_par sys ! 0) (sys_par sys ! 1) 1 ((sys_par sys ! 2)\<^sup>2)
       ((sys_par sys ! 3)\<^sup>2) (nat (sys_T sys)) (Fin (1 / 100000)) (Fin 0) (nat (sys_T sys)) v"
    by blast
  from inv have first: "v_Pp v ! 0 = Fin (1 / 100000)" "v_xhatp v ! 0 = Fin 0"
    and eqs: "\<And>t. t < nat (sys_T sys) \<Longrightarrow> kf_eqs sys (sys_par sys ! 0) (sys_par sys ! 1) 1
       ((sys_par sys ! 2)\<^sup>2) ((sys_par sys ! 3)\<^sup>2) v t"
    by (simp_all add: kf_inv_def)
  show ?thesis
    using self(1) first eqs
    by (intro exI [of _ self]) (simp add: self(2) kf_eqs_def fmul_assoc)
qed

text \<open>
  The theorem of claim C1 at the model \<open>sys_ex\<close>: the start, \<open>S\<^sub>0\<close>, and the time 1.
\<close>

theorem kf_recursion_witness:
  "wf_sys sys_ex \<and>
   (\<exists>self. kf sys_ex = Inr self \<and> self_A self = 9 / 10 \<and> self_R self = 1 / 4 \<and>
      self_xhatp self ! 0 = Fin 0 \<and> self_Pp self ! 0 = Fin (1 / 100000) \<and>
      loc_S self ! 0 = Fin (25001 / 100000) \<and>
      loc_S self ! 1 = fadd (self_Pp self ! 1) (Fin (1 / 4)) \<and>
      self_K self ! 1 = fdiv (self_Pp self ! 1) (loc_S self ! 1) \<and>
      self_xhatf self ! 1 =
        fadd (self_xhatp self ! 1)
          (fmul (self_K self ! 1) (fsub (Fin (- (1 / 5))) (loc_yhatp self ! 1))))"
proof -
  have n: "nat (sys_T sys_ex) = 5" and A: "sys_par sys_ex ! 1 = 9 / 10"
    and R: "(sys_par sys_ex ! 3)\<^sup>2 = 1 / 4" and y: "sys_y sys_ex ! 1 = - (1 / 5)"
    by (simp_all add: sys_ex_def power2_eq_square)
  from kf_recursion [OF wf_sys_ex] obtain self where self: "kf sys_ex = Inr self"
    "self_A self = 9 / 10" "self_R self = 1 / 4"
    "self_xhatp self ! 0 = Fin 0" "self_Pp self ! 0 = Fin (1 / 100000)"
    and eqs: "\<forall>t<5.
        loc_S self ! t = fadd (self_Pp self ! t) (Fin (self_R self)) \<and>
        self_K self ! t = fdiv (self_Pp self ! t) (loc_S self ! t) \<and>
        self_xhatf self ! t =
          fadd (self_xhatp self ! t)
            (fmul (self_K self ! t) (fsub (Fin (sys_y sys_ex ! t)) (loc_yhatp self ! t)))"
    unfolding n A R by blast
  from eqs have e0: "loc_S self ! 0 = fadd (self_Pp self ! 0) (Fin (self_R self))"
    by simp
  from eqs have e1: "loc_S self ! 1 = fadd (self_Pp self ! 1) (Fin (self_R self))"
    "self_K self ! 1 = fdiv (self_Pp self ! 1) (loc_S self ! 1)"
    "self_xhatf self ! 1 =
          fadd (self_xhatp self ! 1)
            (fmul (self_K self ! 1) (fsub (Fin (sys_y sys_ex ! 1)) (loc_yhatp self ! 1)))"
    by simp_all
  have "loc_S self ! 0 = Fin (25001 / 100000)"
    unfolding e0 self(3,5) by simp
  with self e1 [unfolded self(3) y] wf_sys_ex show ?thesis by blast
qed

text \<open>
  \<open>wf_sys\<close> is no more than \<^verbatim>\<open>kf\<close> needs: on any other model \<^verbatim>\<open>kf\<close> raises
  (\<open>kf_returns_wf\<close>), and on a well-formed model it returns (\<open>kf_run\<close>).
\<close>

lemma for_loop_each:
  "for_loop body xs s = Inr s' \<Longrightarrow> k \<in> set xs \<Longrightarrow> \<exists>s1 s2. body k s1 = Inr s2"
proof (induction xs arbitrary: s)
  case Nil
  then show ?case by simp
next
  case (Cons x xs)
  from Cons.prems(1) obtain s1 where s1: "body x s = Inr s1" "for_loop body xs s1 = Inr s'"
    by (auto simp: bnd_eq_Inr)
  show ?case
  proof (cases "k = x")
    case True
    with s1 show ?thesis by blast
  next
    case False
    with Cons.prems(2) have "k \<in> set xs" by simp
    with Cons.IH s1(2) show ?thesis by blast
  qed
qed

lemma rd_nat_Inr: "rd xs (int k) = Inr a \<Longrightarrow> k < length xs"
  by (auto simp: rd_def py_index_def bnd_eq_Inr split: if_splits)

lemma kf_step_reads:
  assumes "kf_step sys m A C Q R (int k) v = Inr v'"
  shows "k < length (sys_y sys) \<and> k < length (sys_u sys)"
proof -
  from assms obtain a b where "rd (sys_y sys) (int k) = Inr a" "rd (sys_u sys) (int k) = Inr b"
    unfolding kf_step_def bnd_eq_Inr by blast
  then show ?thesis by (simp add: rd_nat_Inr)
qed

lemma kf_returns_wf:
  assumes "kf sys = Inr self"
  shows "wf_sys sys"
proof -
  from assms obtain S where "np_zeros (sys_T sys) = Inr S"
    unfolding kf_def Let_def bnd_eq_Inr by blast
  then have T: "0 \<le> sys_T sys" by (simp add: np_zeros_def split: if_splits)
  from assms obtain r where "rd (sys_par sys) 3 = Inr r"
    unfolding kf_def Let_def bnd_eq_Inr by blast
  then have par: "4 \<le> length (sys_par sys)"
    using rd_nat_Inr [of "sys_par sys" 3 r] by simp
  from assms obtain m A C Q R v0 v where
    loop: "for_loop (kf_step sys m A C Q R) (py_range 0 (sys_T sys)) v0 = Inr v"
    unfolding kf_def Let_def bnd_eq_Inr by blast
  have "nat (sys_T sys) \<le> length (sys_y sys) \<and> nat (sys_T sys) \<le> length (sys_u sys)"
  proof (cases "sys_T sys = 0")
    case True
    then show ?thesis by simp
  next
    case False
    with T obtain k where k: "sys_T sys = int (Suc k)"
      by (metis nat_0_iff nat_eq_iff2 not0_implies_Suc order_antisym_conv)
    then have "int k \<in> set (py_range 0 (sys_T sys))"
      using py_range_nat [of 0 "Suc k"] by simp
    from for_loop_each [OF loop this] obtain v1 v2 where
      "kf_step sys m A C Q R (int k) v1 = Inr v2" by blast
    from kf_step_reads [OF this] k show ?thesis by auto
  qed
  with T par show ?thesis by (simp add: wf_sys_def)
qed

lemma kf_run_lens:
  assumes "wf_sys sys"
  shows "\<exists>self. kf sys = Inr self \<and> self_xo self = 0 \<and> self_Po self = 1 / 100000 \<and>
     length (self_xhatp self) = Suc (nat (sys_T sys)) \<and>
     length (self_Pp self) = Suc (nat (sys_T sys)) \<and>
     length (self_xhatf self) = nat (sys_T sys) \<and> length (self_Pf self) = nat (sys_T sys) \<and>
     length (loc_S self) = nat (sys_T sys) \<and> length (self_K self) = nat (sys_T sys) \<and>
     length (loc_yhatp self) = nat (sys_T sys) \<and> length (self_llt self) = nat (sys_T sys) \<and>
     self_xhatp self ! 0 = Fin 0 \<and> self_Pp self ! 0 = Fin (1 / 100000)"
proof -
  from kf_run [OF assms] obtain v self where
    self: "kf sys = Inr self" "self = 
      \<lparr>self_xo = 0, self_Po = 1 / 100000, self_m = sys_par sys ! 0, self_A = sys_par sys ! 1,
       self_C = 1, self_Q = (sys_par sys ! 2)\<^sup>2, self_q = sys_par sys ! 2,
       self_R = (sys_par sys ! 3)\<^sup>2, self_r = sys_par sys ! 3,
       self_ll = np_sum (v_ll v), self_llt = v_ll v,
       self_xhatf = v_xhatf v, self_xhatp = v_xhatp v, self_K = v_K v,
       self_Pp = v_Pp v, self_Pf = v_Pf v, loc_S = v_S v, loc_yhatp = v_yhatp v\<rparr>"
    and inv: "kf_inv sys (sys_par sys ! 0) (sys_par sys ! 1) 1 ((sys_par sys ! 2)\<^sup>2)
       ((sys_par sys ! 3)\<^sup>2) (nat (sys_T sys)) (Fin (1 / 100000)) (Fin 0) (nat (sys_T sys)) v"
    by blast
  from inv have "kf_lens (nat (sys_T sys)) v" "v_Pp v ! 0 = Fin (1 / 100000)"
    "v_xhatp v ! 0 = Fin 0"
    by (simp_all add: kf_inv_def)
  with self show ?thesis by (simp add: kf_lens_def)
qed

text \<open>
  Claim C9. For a well-formed model \<^verbatim>\<open>kf\<close> returns; \<^verbatim>\<open>xhatp\<close> and \<^verbatim>\<open>Pp\<close> have
  \<open>T + 1\<close> entries; \<^verbatim>\<open>xhatf\<close>, \<^verbatim>\<open>Pf\<close>, \<^verbatim>\<open>S\<close>, \<^verbatim>\<open>K\<close>, \<^verbatim>\<open>yhatp\<close> and \<^verbatim>\<open>llt\<close> have
  \<open>T\<close> entries; and the initial predicted mean and variance are the constants 0 and
  \<open>10\<^sup>-\<^sup>5\<close>, whatever the model.
\<close>

theorem kf_lengths_initial:
  assumes "wf_sys sys"
  shows "\<exists>self. kf sys = Inr self \<and>
     length (self_xhatp self) = nat (sys_T sys) + 1 \<and>
     length (self_Pp self) = nat (sys_T sys) + 1 \<and>
     length (self_xhatf self) = nat (sys_T sys) \<and> length (self_Pf self) = nat (sys_T sys) \<and>
     length (loc_S self) = nat (sys_T sys) \<and> length (self_K self) = nat (sys_T sys) \<and>
     length (loc_yhatp self) = nat (sys_T sys) \<and> length (self_llt self) = nat (sys_T sys) \<and>
     self_xo self = 0 \<and> self_Po self = 1 / 100000 \<and>
     self_xhatp self ! 0 = Fin 0 \<and> self_Pp self ! 0 = Fin (1 / 100000)"
  using kf_run_lens [OF assms] by auto

text \<open>The theorem of claim C9 at the model \<open>sys_ex\<close>, where \<open>T = 5\<close>.\<close>

theorem kf_lengths_initial_witness:
  "wf_sys sys_ex \<and>
   (\<exists>self. kf sys_ex = Inr self \<and> length (self_xhatp self) = 6 \<and> length (self_Pp self) = 6 \<and>
      length (loc_S self) = 5 \<and> length (self_llt self) = 5 \<and>
      self_xhatp self ! 0 = Fin 0 \<and> self_Pp self ! 0 = Fin (1 / 100000))"
proof -
  have "nat (sys_T sys_ex) = 5" by (simp add: sys_ex_def)
  with kf_lengths_initial [OF wf_sys_ex] wf_sys_ex show ?thesis by auto
qed

subsection \<open>The smoother: the two backward loops\<close>

lemma rd_last: "0 < n \<Longrightarrow> length xs = n \<Longrightarrow> rd xs (int n - 1) = Inr (xs ! (n - 1))"
  using rd_nat [of "n - 1" xs] by (cases n) simp_all

lemma wr_last: "0 < n \<Longrightarrow> length xs = n \<Longrightarrow> wr xs (int n - 1) a = Inr (xs[n - 1 := a])"
  using wr_nat [of "n - 1" xs a] by (cases n) simp_all

lemma np_zeros_nat [simp]: "np_zeros (int n) = Inr (replicate n (Fin 0))"
  by (simp add: np_zeros_def)

lemma rts_init_run:
  assumes "self_lens n self" and "0 < n" and "sys_T sys = int n"
  shows "rts_init sys self =
    Inr \<lparr>r_J = replicate n (Fin 0), r_M = replicate n (Fin 0),
         r_xhats = (replicate n (Fin 0))[n - 1 := self_xhatf self ! (n - 1)],
         r_Ps = (replicate n (Fin 0))[n - 1 := self_Pf self ! (n - 1)]\<rparr>"
proof -
  from assms have l: "length (self_Pf self) = n" "length (self_xhatf self) = n"
    by (simp_all add: self_lens_def)
  have r: "rd (self_Pf self) (int n - 1) = Inr (self_Pf self ! (n - 1))"
    "rd (self_xhatf self) (int n - 1) = Inr (self_xhatf self ! (n - 1))"
    using rd_last [OF assms(2)] l by simp_all
  have w: "wr (replicate n (Fin 0)) (int n - 1) a = Inr ((replicate n (Fin 0))[n - 1 := a])" for a
    by (rule wr_last [OF assms(2)]) simp
  show ?thesis
    unfolding rts_init_def assms(3) np_zeros_nat bnd_Inr r w ..
qed

lemma rts_init_inv:
  assumes "self_lens n self" and "0 < n" and "sys_T sys = int n"
  shows "\<exists>v. rts_init sys self = Inr v \<and> back_inv self n (n - 1) v"
  unfolding rts_init_run [OF assms]
  using assms(2) by (auto simp: back_inv_def sm_lens_def nth_list_update)

lemma rts_back_step_run:
  assumes "self_lens n self" and "sm_lens n v" and "Suc k < n"
  shows "rts_back_step self (int k) v =
    (let j = fdiv (fmul (self_Pf self ! k) (Fin (self_A self))) (self_Pp self ! Suc k) in
     Inr (v\<lparr>r_J := (r_J v)[k := j],
            r_xhats := (r_xhats v)[k := fadd (self_xhatf self ! k)
               (fmul j (fsub (r_xhats v ! Suc k) (self_xhatp self ! Suc k)))],
            r_Ps := (r_Ps v)[k := fadd (self_Pf self ! k)
               (fmul (fmul j (fsub (r_Ps v ! Suc k) (self_Pp self ! Suc k))) j)]\<rparr>))"
  using assms by (simp add: rts_back_step_def self_lens_def sm_lens_def Let_def)

lemma rts_back_step_inv:
  assumes sl: "self_lens n self" and inv: "back_inv self n (Suc k) v" and k: "Suc k < n"
  shows "\<exists>v'. rts_back_step self (int k) v = Inr v' \<and> back_inv self n k v'"
proof -
  from inv have lens: "sm_lens n v" by (simp add: back_inv_def)
  define j where "j = fdiv (fmul (self_Pf self ! k) (Fin (self_A self))) (self_Pp self ! Suc k)"
  define x where "x = fadd (self_xhatf self ! k)
               (fmul j (fsub (r_xhats v ! Suc k) (self_xhatp self ! Suc k)))"
  define p where "p = fadd (self_Pf self ! k)
               (fmul (fmul j (fsub (r_Ps v ! Suc k) (self_Pp self ! Suc k))) j)"
  define v' where "v' = v\<lparr>r_J := (r_J v)[k := j], r_xhats := (r_xhats v)[k := x],
     r_Ps := (r_Ps v)[k := p]\<rparr>"
  have step: "rts_back_step self (int k) v = Inr v'"
    unfolding rts_back_step_run [OF sl lens k] Let_def v'_def p_def x_def j_def ..
  have fields: "r_J v' = (r_J v)[k := j]" "r_xhats v' = (r_xhats v)[k := x]"
    "r_Ps v' = (r_Ps v)[k := p]" "r_M v' = r_M v"
    by (simp_all add: v'_def)
  have lens': "sm_lens n v'" using lens by (simp add: sm_lens_def fields)
  have l: "k < length (r_J v)" "k < length (r_xhats v)" "k < length (r_Ps v)"
    using lens k by (simp_all add: sm_lens_def)
  have old: "back_eqs self v' t" if "Suc k \<le> t" "t < n - 1" for t
  proof -
    from inv that have "back_eqs self v t" by (simp add: back_inv_def)
    with that show ?thesis by (simp add: back_eqs_def fields)
  qed
  have new: "back_eqs self v' k"
    using l by (simp add: back_eqs_def fields j_def x_def p_def)
  have eqs: "back_eqs self v' t" if "k \<le> t" "t < n - 1" for t
    using old [of t] new that by (cases "t = k") simp_all
  from inv k have rest: "r_M v' = replicate n (Fin 0)" "\<forall>i<k. r_J v' ! i = Fin 0"
    "r_J v' ! (n - 1) = Fin 0"
    "\<forall>i<k. i < n - 1 \<longrightarrow> r_xhats v' ! i = Fin 0 \<and> r_Ps v' ! i = Fin 0"
    "r_xhats v' ! (n - 1) = self_xhatf self ! (n - 1)"
    "r_Ps v' ! (n - 1) = self_Pf self ! (n - 1)"
    by (simp_all add: back_inv_def fields)
  with step lens' eqs show ?thesis by (simp add: back_inv_def)
qed

lemma range_down_nat: "0 < n \<Longrightarrow> py_range_down (int n - 2) 0 = rev (map int [1..<n - 1])"
  using py_range_down_nat [of "n - 1" 1] by (simp add: of_nat_diff)

lemma rts_backward_run:
  assumes sl: "self_lens n self" and inv: "back_inv self n (n - 1) v" and n: "2 \<le> n"
    and T: "sys_T sys = int n"
  shows "\<exists>v'. rts_backward sys self v = Inr v' \<and> back_inv self n 1 v'"
proof -
  have "\<exists>v'. for_loop (rts_back_step self) (rev (map int [1..<n - 1])) v = Inr v' \<and>
      back_inv self n 1 v'"
  proof (rule for_loop_down_inv [where P = "back_inv self n"])
    show "back_inv self n (n - 1) v" by (rule inv)
    show "\<exists>v'. rts_back_step self (int k) v = Inr v' \<and> back_inv self n k v'"
      if "k < n - 1" and "back_inv self n (Suc k) v" for k v
      using that by (intro rts_back_step_inv [OF sl]) simp_all
    show "1 \<le> n - 1" using n by simp
  qed
  with n show ?thesis by (simp add: rts_backward_def T range_down_nat)
qed

lemma rd_nat_pred [simp]:
  "0 < k \<Longrightarrow> k \<le> length xs \<Longrightarrow> rd xs (int k - 1) = Inr (xs ! (k - 1))"
  using rd_nat [of "k - 1" xs] by (cases k) simp_all

lemma rts_lag_step_run:
  assumes "self_lens n self" and "length (r_J v) = n" and "length (r_M v) = n"
    and "0 < k" and "Suc k < n"
  shows "rts_lag_step self (int k) v =
    Inr (v\<lparr>r_M := (r_M v)[k :=
       fadd (fmul (self_Pf self ! k) (r_J v ! (k - 1)))
         (fmul (fmul (r_J v ! (k - 1))
                  (fsub (r_M v ! Suc k) (fmul (Fin (self_A self)) (self_Pf self ! k))))
            (r_J v ! (k - 1)))]\<rparr>)"
  using assms by (simp add: rts_lag_step_def self_lens_def)

lemma rts_lag_step_inv:
  assumes sl: "self_lens n self" and v0: "length (r_J v0) = n"
    and inv: "lag_inv self n v0 (Suc k) v" and k: "0 < k" "Suc k < n"
  shows "\<exists>v'. rts_lag_step self (int k) v = Inr v' \<and> lag_inv self n v0 k v'"
proof -
  from inv v0 have lens: "length (r_J v) = n" "length (r_M v) = n"
    by (simp_all add: lag_inv_def)
  define a where "a = fadd (fmul (self_Pf self ! k) (r_J v ! (k - 1)))
         (fmul (fmul (r_J v ! (k - 1))
                  (fsub (r_M v ! Suc k) (fmul (Fin (self_A self)) (self_Pf self ! k))))
            (r_J v ! (k - 1)))"
  define v' where "v' = v\<lparr>r_M := (r_M v)[k := a]\<rparr>"
  have step: "rts_lag_step self (int k) v = Inr v'"
    unfolding rts_lag_step_run [OF sl lens k] v'_def a_def ..
  have fields: "r_J v' = r_J v" "r_xhats v' = r_xhats v" "r_Ps v' = r_Ps v"
    "r_M v' = (r_M v)[k := a]"
    by (simp_all add: v'_def)
  have old: "lag_eqs self v' t" if "Suc k \<le> t" "t < n - 1" for t
  proof -
    from inv that have "lag_eqs self v t" by (simp add: lag_inv_def)
    with that show ?thesis by (simp add: lag_eqs_def fields)
  qed
  have new: "lag_eqs self v' k"
    using lens k by (simp add: lag_eqs_def fields a_def)
  have eqs: "lag_eqs self v' t" if "k \<le> t" "t < n - 1" for t
    using old [of t] new that by (cases "t = k") simp_all
  from inv k lens have rest: "r_J v' = r_J v0" "r_xhats v' = r_xhats v0" "r_Ps v' = r_Ps v0"
    "length (r_M v') = n"
    "r_M v' ! (n - 1) =
       fmul (fmul (fsub (Fin 1) (self_K self ! (n - 1))) (Fin (self_A self)))
         (self_Pf self ! (n - 1))"
    "\<forall>i<k. i < n - 1 \<longrightarrow> r_M v' ! i = Fin 0"
    by (simp_all add: lag_inv_def fields)
  with step eqs show ?thesis by (simp add: lag_inv_def)
qed

lemma rts_lagone_run:
  assumes sl: "self_lens n self" and lens: "sm_lens n v" and M: "r_M v = replicate n (Fin 0)"
    and n: "2 \<le> n" and T: "sys_T sys = int n"
  shows "\<exists>v'. rts_lagone sys self v = Inr v' \<and> lag_inv self n v 1 v'"
proof -
  define a where "a = fmul (fmul (fsub (Fin 1) (self_K self ! (n - 1))) (Fin (self_A self)))
         (self_Pf self ! (n - 1))"
  define v1 where "v1 = v\<lparr>r_M := (r_M v)[n - 1 := a]\<rparr>"
  from n have n0: "0 < n" by simp
  from sl have l: "length (self_K self) = n" "length (self_Pf self) = n"
    by (simp_all add: self_lens_def)
  from lens have lM: "length (r_M v) = n" and lJ: "length (r_J v) = n"
    by (simp_all add: sm_lens_def)
  have first: "rts_lagone sys self v =
      for_loop (rts_lag_step self) (rev (map int [1..<n - 1])) v1"
    unfolding rts_lagone_def T rd_last [OF n0 l(1)] rd_last [OF n0 l(2)] wr_last [OF n0 lM]
      bnd_Inr range_down_nat [OF n0] v1_def a_def ..
  have init: "lag_inv self n v (n - 1) v1"
    using n lM M by (auto simp: lag_inv_def v1_def a_def)
  have "\<exists>v'. for_loop (rts_lag_step self) (rev (map int [1..<n - 1])) v1 = Inr v' \<and>
      lag_inv self n v 1 v'"
  proof (rule for_loop_down_inv [where P = "lag_inv self n v"])
    show "lag_inv self n v (n - 1) v1" by (rule init)
    show "\<exists>v'. rts_lag_step self (int k) w = Inr v' \<and> lag_inv self n v k v'"
      if "1 \<le> k" and "k < n - 1" and "lag_inv self n v (Suc k) w" for k w
      using that by (intro rts_lag_step_inv [OF sl lJ]) simp_all
    show "1 \<le> n - 1" using n by simp
  qed
  with first show ?thesis by simp
qed

subsection \<open>The smoother: the gradient\<close>

lemma wr2_rows:
  assumes "k < length r0" "k < length r1" "k < length r2" "k < length r3"
  shows "wr2 [r0, r1, r2, r3] 0 (int k) a = Inr [r0[k := a], r1, r2, r3]"
    and "wr2 [r0, r1, r2, r3] 1 (int k) a = Inr [r0, r1[k := a], r2, r3]"
    and "wr2 [r0, r1, r2, r3] 2 (int k) a = Inr [r0, r1, r2[k := a], r3]"
    and "wr2 [r0, r1, r2, r3] 3 (int k) a = Inr [r0, r1, r2, r3[k := a]]"
  using assms by (simp_all add: wr2_def rd_def wr_def py_index_def)

lemma rts_grad_step_run:
  assumes lens: "sm_lens n v" and k: "0 < k" "k < n"
    and ky: "k < length (sys_y sys)" and ku: "k < length (sys_u sys)"
    and g: "g_gradient g = [r0, r1, r2, r3]"
    and r: "length r0 = n" "length r1 = n" "length r2 = n" "length r3 = n"
  shows "rts_grad_step sys self v (int k) g =
    Inr \<lparr>g_gradient = [r0[k := score sys self v 0 k], r1[k := score sys self v 1 k],
                       r2[k := score sys self v 2 k], r3[k := score sys self v 3 k]],
         g_gradient0 = Some (map np_sum (py_slice0
            [r0[k := score sys self v 0 k], r1[k := score sys self v 1 k],
             r2[k := score sys self v 2 k], r3[k := score sys self v 3 k]]
            (sys_nParInference sys)))\<rparr>"
proof -
  from lens k have l: "k < length (r_xhats v)" "k < length (r_Ps v)" "k < length (r_M v)"
    "k \<le> length (r_xhats v)" "k \<le> length (r_Ps v)"
    by (simp_all add: sm_lens_def)
  from r k have kr: "k < length r0" "k < length r1" "k < length r2" "k < length r3"
    by simp_all
  have p2: "x powi 2 = x\<^sup>2" for x :: real by simp
  show ?thesis
    unfolding rts_grad_step_def Let_def g
    by (simp add: l k ky ku kr wr2_rows score_def spec_score_def spec_kappa_def spec_eta_def
        spec_psi_def spec_px_def spec_dmu_def spec_dphi_def spec_dsigv_def spec_dsige_def
        Let_def)
qed

lemma grad_row_ok_update:
  assumes "grad_row_ok f n k row" and "0 < k" and "k < n"
  shows "grad_row_ok f n (Suc k) (row[k := f k])"
  using assms by (auto simp: grad_row_ok_def nth_list_update less_Suc_eq)

lemma rts_grad_step_inv:
  assumes lens: "sm_lens n v" and k: "0 < k" "k < n"
    and ny: "n \<le> length (sys_y sys)" and nu: "n \<le> length (sys_u sys)"
    and inv: "grad_inv sys self v n k g"
  shows "\<exists>g'. rts_grad_step sys self v (int k) g = Inr g' \<and> grad_inv sys self v n (Suc k) g'"
proof -
  from inv obtain r0 r1 r2 r3 where g: "g_gradient g = [r0, r1, r2, r3]"
    and ok: "grad_row_ok (score sys self v 0) n k r0" "grad_row_ok (score sys self v 1) n k r1"
      "grad_row_ok (score sys self v 2) n k r2" "grad_row_ok (score sys self v 3) n k r3"
    unfolding grad_inv_def by blast
  from ok have r: "length r0 = n" "length r1 = n" "length r2 = n" "length r3 = n"
    by (simp_all add: grad_row_ok_def)
  from k ny nu have ky: "k < length (sys_y sys)" and ku: "k < length (sys_u sys)" by simp_all
  note run = rts_grad_step_run [OF lens k ky ku g r, of self]
  note ok' = grad_row_ok_update [OF ok(1) k] grad_row_ok_update [OF ok(2) k]
    grad_row_ok_update [OF ok(3) k] grad_row_ok_update [OF ok(4) k]
  show ?thesis
    unfolding run using ok' k(1) by (simp add: grad_inv_def)
qed

lemma rts_gradient_run:
  assumes lens: "sm_lens n v" and n: "1 \<le> n" and T: "sys_T sys = int n"
    and ny: "n \<le> length (sys_y sys)" and nu: "n \<le> length (sys_u sys)"
  shows "\<exists>g. rts_gradient sys self v = Inr g \<and> grad_inv sys self v n n g"
proof -
  define g0 where "g0 = \<lparr>g_gradient = replicate 4 (replicate n (Fin 0)), g_gradient0 = None\<rparr>"
  have four: "replicate 4 x = [x, x, x, x]" for x :: "fl list"
    by (simp add: numeral_eq_Suc)
  have init: "grad_inv sys self v n 1 g0"
    using n by (simp add: grad_inv_def g0_def four grad_row_ok_def)
  have "\<exists>g. for_loop (rts_grad_step sys self v) (map int [1..<n]) g0 = Inr g \<and>
      grad_inv sys self v n n g"
  proof (rule for_loop_up_inv [where P = "grad_inv sys self v n"])
    show "grad_inv sys self v n 1 g0" by (rule init)
    show "\<exists>g'. rts_grad_step sys self v (int k) g = Inr g' \<and> grad_inv sys self v n (Suc k) g'"
      if "1 \<le> k" and "k < n" and "grad_inv sys self v n k g" for k g
      using that by (intro rts_grad_step_inv [OF lens _ _ ny nu]) simp_all
    show "1 \<le> n" by (rule n)
  qed
  then show ?thesis
    using py_range_nat [of 1 n] by (simp add: rts_gradient_def T g0_def)
qed

lemma rts_prior_step_inv:
  assumes "prior_inv sys G h0 k g" and "k < length h0"
  shows "\<exists>g'. rts_prior_step sys (int k) g = Inr g' \<and> prior_inv sys G h0 (Suc k) g'"
proof -
  from assms(1) obtain h where h: "g_gradient g = G" "g_gradient0 g = Some h"
    "length h = length h0" "\<forall>i<k. h ! i = fadd (sys_dprior1 sys (int i)) (h0 ! i)"
    "\<forall>i. k \<le> i \<and> i < length h0 \<longrightarrow> h ! i = h0 ! i"
    unfolding prior_inv_def by blast
  from h(3) assms(2) have kh: "k < length h" by simp
  from h(5) assms(2) have hk: "h ! k = h0 ! k" by simp
  have step: "rts_prior_step sys (int k) g =
      Inr (g\<lparr>g_gradient0 := Some (h[k := fadd (sys_dprior1 sys (int k)) (h0 ! k)])\<rparr>)"
    using kh by (simp add: rts_prior_step_def h(2) hk)
  show ?thesis
    unfolding step using h kh
    by (auto simp: prior_inv_def nth_list_update less_Suc_eq)
qed

lemma py_range_0: "py_range 0 n = map int [0..<nat n]"
proof (cases "0 \<le> n")
  case True
  then show ?thesis using py_range_nat [of 0 "nat n"] by simp
next
  case False
  then show ?thesis by (simp add: py_range_def)
qed

lemma rts_prior_run:
  assumes "g_gradient0 g = Some h0" and "nat (sys_nParInference sys) \<le> length h0"
  shows "\<exists>g'. rts_prior sys g = Inr g' \<and>
    prior_inv sys (g_gradient g) h0 (nat (sys_nParInference sys)) g'"
proof -
  have "\<exists>g'. for_loop (rts_prior_step sys) (map int [0..<nat (sys_nParInference sys)]) g = Inr g' \<and>
    prior_inv sys (g_gradient g) h0 (nat (sys_nParInference sys)) g'"
  proof (rule for_loop_up_inv [where P = "prior_inv sys (g_gradient g) h0"])
    show "prior_inv sys (g_gradient g) h0 0 g"
      using assms(1) by (simp add: prior_inv_def)
    show "\<exists>g'. rts_prior_step sys (int k) w = Inr g' \<and>
        prior_inv sys (g_gradient g) h0 (Suc k) g'"
      if "k < nat (sys_nParInference sys)" and "prior_inv sys (g_gradient g) h0 k w" for k w
      using that assms(2) by (intro rts_prior_step_inv) simp_all
    show "0 \<le> nat (sys_nParInference sys)" by simp
  qed
  then show ?thesis by (simp add: rts_prior_def py_range_0)
qed

subsection \<open>The smoother: a whole run\<close>

lemma kf_run_self_lens:
  assumes "wf_sys sys"
  shows "\<exists>self. kf sys = Inr self \<and> self_lens (nat (sys_T sys)) self"
  using kf_run_lens [OF assms] by (auto simp: self_lens_def)

lemma smooth_run:
  assumes sl: "self_lens n self" and n: "2 \<le> n" and T: "sys_T sys = int n"
  shows "\<exists>v1 v2 v. rts_init sys self = Inr v1 \<and> rts_backward sys self v1 = Inr v2 \<and>
     rts_lagone sys self v2 = Inr v \<and> smooth_ok self n v"
proof -
  from n have n0: "0 < n" by simp
  from rts_init_inv [OF sl n0 T] obtain v1 where
    v1: "rts_init sys self = Inr v1" "back_inv self n (n - 1) v1" by blast
  from rts_backward_run [OF sl v1(2) n T] obtain v2 where
    v2: "rts_backward sys self v1 = Inr v2" "back_inv self n 1 v2" by blast
  from v2(2) have lens: "sm_lens n v2" and M: "r_M v2 = replicate n (Fin 0)"
    by (simp_all add: back_inv_def)
  from rts_lagone_run [OF sl lens M n T] obtain v where
    v: "rts_lagone sys self v2 = Inr v" "lag_inv self n v2 1 v" by blast
  from v(2) have same: "r_J v = r_J v2" "r_xhats v = r_xhats v2" "r_Ps v = r_Ps v2"
    and lM: "length (r_M v) = n"
    and last: "r_M v ! (n - 1) =
       fmul (fmul (fsub (Fin 1) (self_K self ! (n - 1))) (Fin (self_A self)))
         (self_Pf self ! (n - 1))"
    and lag: "\<And>t. 1 \<le> t \<Longrightarrow> t < n - 1 \<Longrightarrow> lag_eqs self v t"
    by (simp_all add: lag_inv_def)
  from v2(2) n have zero: "r_J v2 ! 0 = Fin 0" "r_xhats v2 ! 0 = Fin 0" "r_Ps v2 ! 0 = Fin 0"
    and bound: "r_xhats v2 ! (n - 1) = self_xhatf self ! (n - 1)"
      "r_Ps v2 ! (n - 1) = self_Pf self ! (n - 1)"
    and bk: "\<And>t. 1 \<le> t \<Longrightarrow> t < n - 1 \<Longrightarrow> back_eqs self v2 t"
    by (simp_all add: back_inv_def)
  have back': "back_eqs self v t" if "1 \<le> t" "t < n - 1" for t
    using bk [OF that] by (simp add: back_eqs_def same)
  have "sm_lens n v" using lens lM by (simp add: sm_lens_def same)
  with zero bound back' last lag have "smooth_ok self n v"
    by (simp add: smooth_ok_def same)
  with v1(1) v2(1) v(1) show ?thesis by blast
qed

lemma rts_run:
  assumes wf: "wf_sys sys" and T2: "2 \<le> sys_T sys" and np: "sys_nParInference sys \<le> 4"
  shows "\<exists>self v r0 r1 r2 r3 h. kf sys = Inr self \<and>
     rts sys = Inr \<lparr>self_kf = self, self_Ps = r_Ps v, self_xhats = r_xhats v,
       self_gradient = py_slice0 h (sys_nParInference sys),
       self_gradient1 = py_slice0 [r0, r1, r2, r3] (sys_nParInference sys),
       loc_J = r_J v, loc_M = r_M v\<rparr> \<and>
     smooth_ok self (nat (sys_T sys)) v \<and>
     grad_row_ok (score sys self v 0) (nat (sys_T sys)) (nat (sys_T sys)) r0 \<and>
     grad_row_ok (score sys self v 1) (nat (sys_T sys)) (nat (sys_T sys)) r1 \<and>
     grad_row_ok (score sys self v 2) (nat (sys_T sys)) (nat (sys_T sys)) r2 \<and>
     grad_row_ok (score sys self v 3) (nat (sys_T sys)) (nat (sys_T sys)) r3 \<and>
     nat (sys_nParInference sys) \<le> length h \<and>
     (\<forall>i<nat (sys_nParInference sys).
        h ! i = fadd (sys_dprior1 sys (int i)) (np_sum ([r0, r1, r2, r3] ! i)))"
proof -
  define n where "n = nat (sys_T sys)"
  from T2 have n: "2 \<le> n" and T: "sys_T sys = int n" by (simp_all add: n_def)
  from wf have ny: "n \<le> length (sys_y sys)" and nu: "n \<le> length (sys_u sys)"
    by (simp_all add: wf_sys_def n_def)
  from kf_run_self_lens [OF wf] obtain self where self: "kf sys = Inr self"
    and sl: "self_lens n self" unfolding n_def by blast
  from smooth_run [OF sl n T] obtain v1 v2 v where v1: "rts_init sys self = Inr v1"
    and v2: "rts_backward sys self v1 = Inr v2" and v: "rts_lagone sys self v2 = Inr v"
    and ok: "smooth_ok self n v" by blast
  from ok have lens: "sm_lens n v" by (simp add: smooth_ok_def)
  from n have n1: "1 \<le> n" by simp
  from rts_gradient_run [OF lens n1 T ny nu, of self] obtain g where
    g: "rts_gradient sys self v = Inr g" and ginv: "grad_inv sys self v n n g" by blast
  from ginv n obtain r0 r1 r2 r3 where G: "g_gradient g = [r0, r1, r2, r3]"
    and rows: "grad_row_ok (score sys self v 0) n n r0" "grad_row_ok (score sys self v 1) n n r1"
      "grad_row_ok (score sys self v 2) n n r2" "grad_row_ok (score sys self v 3) n n r3"
    and g0: "g_gradient0 g = Some (map np_sum (py_slice0 [r0, r1, r2, r3] (sys_nParInference sys)))"
    unfolding grad_inv_def by auto
  define h0 where "h0 = map np_sum (py_slice0 [r0, r1, r2, r3] (sys_nParInference sys))"
  have lh0: "nat (sys_nParInference sys) \<le> length h0"
    using np by (simp add: h0_def py_slice0_def)
  have h0i: "h0 ! i = np_sum ([r0, r1, r2, r3] ! i)" if "i < nat (sys_nParInference sys)" for i
  proof -
    from that have "\<not> sys_nParInference sys < 0" by simp
    with that np show ?thesis by (simp add: h0_def py_slice0_def)
  qed
  from rts_prior_run [OF g0 [folded h0_def] lh0] obtain g' where
    g': "rts_prior sys g = Inr g'" and pinv: "prior_inv sys (g_gradient g) h0
      (nat (sys_nParInference sys)) g'" by blast
  from pinv obtain h where h: "g_gradient g' = [r0, r1, r2, r3]" "g_gradient0 g' = Some h"
    "length h = length h0"
    "\<forall>i<nat (sys_nParInference sys). h ! i = fadd (sys_dprior1 sys (int i)) (h0 ! i)"
    unfolding prior_inv_def G by blast
  have out: "rts sys = Inr \<lparr>self_kf = self, self_Ps = r_Ps v, self_xhats = r_xhats v,
       self_gradient = py_slice0 h (sys_nParInference sys),
       self_gradient1 = py_slice0 [r0, r1, r2, r3] (sys_nParInference sys),
       loc_J = r_J v, loc_M = r_M v\<rparr>"
    by (simp add: rts_def self v1 v2 v g g' rts_output_def h)
  from h(3) lh0 have "nat (sys_nParInference sys) \<le> length h" by simp
  moreover from h(4) h0i have "\<forall>i<nat (sys_nParInference sys).
        h ! i = fadd (sys_dprior1 sys (int i)) (np_sum ([r0, r1, r2, r3] ! i))" by simp
  ultimately show ?thesis
    using self out ok rows unfolding n_def by blast
qed

lemma wf_sys_T2: "wf_sys sys_T2"
  by (simp add: wf_sys_def sys_T2_def)

lemma wf_sys_q0: "wf_sys sys_q0"
  by (simp add: wf_sys_def sys_q0_def)

lemma rts_run_smooth:
  assumes "wf_sys sys" and "2 \<le> sys_T sys" and "sys_nParInference sys \<le> 4"
  shows "\<exists>res. rts sys = Inr res \<and> kf sys = Inr (self_kf res) \<and>
     smooth_ok (self_kf res) (nat (sys_T sys))
       \<lparr>r_J = loc_J res, r_M = loc_M res, r_xhats = self_xhats res, r_Ps = self_Ps res\<rparr>"
proof -
  from rts_run [OF assms] obtain self v r0 r1 r2 r3 h where
    "kf sys = Inr self" and
    r: "rts sys = Inr \<lparr>self_kf = self, self_Ps = r_Ps v, self_xhats = r_xhats v,
       self_gradient = py_slice0 h (sys_nParInference sys),
       self_gradient1 = py_slice0 [r0, r1, r2, r3] (sys_nParInference sys),
       loc_J = r_J v, loc_M = r_M v\<rparr>" and
    "smooth_ok self (nat (sys_T sys)) v"
    by blast
  then show ?thesis by (cases v) simp
qed

text \<open>
  Claim C3. For a well-formed model with \<open>T \<ge> 2\<close> (and \<open>nParInference \<le> 4\<close>, so that the run
  completes) \<^verbatim>\<open>rts\<close> returns; the arrays of the filter it uses are those \<^verbatim>\<open>kf\<close>
  returns on this model; \<^verbatim>\<open>xhats\<close>, \<^verbatim>\<open>Ps\<close>, \<^verbatim>\<open>J\<close> and \<^verbatim>\<open>M\<close> have \<open>T\<close> entries;
  \<open>xhats\<^sub>T\<^sub>-\<^sub>1 = xhatf\<^sub>T\<^sub>-\<^sub>1\<close> and \<open>Ps\<^sub>T\<^sub>-\<^sub>1 = Pf\<^sub>T\<^sub>-\<^sub>1\<close>; for \<open>t = T - 2, \<dots>, 1\<close>:
  \<open>J\<^sub>t = Pf\<^sub>t A / Pp\<^sub>t\<^sub>+\<^sub>1\<close>, \<open>xhats\<^sub>t = xhatf\<^sub>t + J\<^sub>t (xhats\<^sub>t\<^sub>+\<^sub>1 - xhatp\<^sub>t\<^sub>+\<^sub>1)\<close> and
  \<open>Ps\<^sub>t = Pf\<^sub>t + J\<^sub>t (Ps\<^sub>t\<^sub>+\<^sub>1 - Pp\<^sub>t\<^sub>+\<^sub>1) J\<^sub>t\<close>; \<open>M\<^sub>T\<^sub>-\<^sub>1 = (1 - K\<^sub>T\<^sub>-\<^sub>1) A Pf\<^sub>T\<^sub>-\<^sub>1\<close>, and for
  \<open>t = T - 2, \<dots>, 1\<close>: \<open>M\<^sub>t = Pf\<^sub>t J\<^sub>t\<^sub>-\<^sub>1 + J\<^sub>t\<^sub>-\<^sub>1 (M\<^sub>t\<^sub>+\<^sub>1 - A Pf\<^sub>t) J\<^sub>t\<^sub>-\<^sub>1\<close>, where \<open>J\<close> and
  \<open>M\<close> are the arrays of the run.
\<close>

theorem rts_backward_pass:
  assumes "wf_sys sys" and "2 \<le> sys_T sys" and "sys_nParInference sys \<le> 4"
  shows "\<exists>res. rts sys = Inr res \<and> kf sys = Inr (self_kf res) \<and>
     length (self_xhats res) = nat (sys_T sys) \<and> length (self_Ps res) = nat (sys_T sys) \<and>
     length (loc_J res) = nat (sys_T sys) \<and> length (loc_M res) = nat (sys_T sys) \<and>
     self_xhats res ! (nat (sys_T sys) - 1) = self_xhatf (self_kf res) ! (nat (sys_T sys) - 1) \<and>
     self_Ps res ! (nat (sys_T sys) - 1) = self_Pf (self_kf res) ! (nat (sys_T sys) - 1) \<and>
     (\<forall>t. 1 \<le> t \<and> t + 2 \<le> nat (sys_T sys) \<longrightarrow>
        loc_J res ! t =
          fdiv (fmul (self_Pf (self_kf res) ! t) (Fin (self_A (self_kf res))))
            (self_Pp (self_kf res) ! (t + 1)) \<and>
        self_xhats res ! t =
          fadd (self_xhatf (self_kf res) ! t)
            (fmul (loc_J res ! t)
               (fsub (self_xhats res ! (t + 1)) (self_xhatp (self_kf res) ! (t + 1)))) \<and>
        self_Ps res ! t =
          fadd (self_Pf (self_kf res) ! t)
            (fmul (fmul (loc_J res ! t)
                     (fsub (self_Ps res ! (t + 1)) (self_Pp (self_kf res) ! (t + 1))))
               (loc_J res ! t))) \<and>
     loc_M res ! (nat (sys_T sys) - 1) =
       fmul (fmul (fsub (Fin 1) (self_K (self_kf res) ! (nat (sys_T sys) - 1)))
               (Fin (self_A (self_kf res))))
         (self_Pf (self_kf res) ! (nat (sys_T sys) - 1)) \<and>
     (\<forall>t. 1 \<le> t \<and> t + 2 \<le> nat (sys_T sys) \<longrightarrow>
        loc_M res ! t =
          fadd (fmul (self_Pf (self_kf res) ! t) (loc_J res ! (t - 1)))
            (fmul (fmul (loc_J res ! (t - 1))
                     (fsub (loc_M res ! (t + 1))
                        (fmul (Fin (self_A (self_kf res))) (self_Pf (self_kf res) ! t))))
               (loc_J res ! (t - 1))))"
proof -
  from rts_run_smooth [OF assms] obtain res where res: "rts sys = Inr res"
    and self: "kf sys = Inr (self_kf res)"
    and ok: "smooth_ok (self_kf res) (nat (sys_T sys))
       \<lparr>r_J = loc_J res, r_M = loc_M res, r_xhats = self_xhats res, r_Ps = self_Ps res\<rparr>"
    by blast
  have t: "t < nat (sys_T sys) - 1" if "t + 2 \<le> nat (sys_T sys)" for t
    using that by simp
  from ok t self show ?thesis
    unfolding smooth_ok_def back_eqs_def lag_eqs_def sm_lens_def
    by (intro exI [of _ res]) (simp add: res)
qed

text \<open>
  The theorem of claim C3 at the model \<open>sys_ex\<close> (\<open>T = 5\<close>), at \<open>t = 3\<close> and \<open>t = 1\<close>.
\<close>

theorem rts_backward_pass_witness:
  "wf_sys sys_ex \<and> 2 \<le> sys_T sys_ex \<and> sys_nParInference sys_ex \<le> 4 \<and>
   (\<exists>res. rts sys_ex = Inr res \<and> kf sys_ex = Inr (self_kf res) \<and>
      length (self_xhats res) = 5 \<and>
      self_xhats res ! 4 = self_xhatf (self_kf res) ! 4 \<and>
      self_Ps res ! 4 = self_Pf (self_kf res) ! 4 \<and>
      loc_J res ! 3 =
        fdiv (fmul (self_Pf (self_kf res) ! 3) (Fin (self_A (self_kf res))))
          (self_Pp (self_kf res) ! 4) \<and>
      loc_M res ! 1 =
          fadd (fmul (self_Pf (self_kf res) ! 1) (loc_J res ! 0))
            (fmul (fmul (loc_J res ! 0)
                     (fsub (loc_M res ! 2)
                        (fmul (Fin (self_A (self_kf res))) (self_Pf (self_kf res) ! 1))))
               (loc_J res ! 0)))"
proof -
  have h: "2 \<le> sys_T sys_ex" "sys_nParInference sys_ex \<le> 4" and n: "nat (sys_T sys_ex) = 5"
    by (simp_all add: sys_ex_def)
  from rts_backward_pass [OF wf_sys_ex h] obtain res where res: "rts sys_ex = Inr res"
    "kf sys_ex = Inr (self_kf res)" "length (self_xhats res) = 5"
    "self_xhats res ! (5 - 1) = self_xhatf (self_kf res) ! (5 - 1)"
    "self_Ps res ! (5 - 1) = self_Pf (self_kf res) ! (5 - 1)"
    "\<forall>t. 1 \<le> t \<and> t + 2 \<le> 5 \<longrightarrow>
        loc_J res ! t =
          fdiv (fmul (self_Pf (self_kf res) ! t) (Fin (self_A (self_kf res))))
            (self_Pp (self_kf res) ! (t + 1))"
    "\<forall>t. 1 \<le> t \<and> t + 2 \<le> 5 \<longrightarrow>
        loc_M res ! t =
          fadd (fmul (self_Pf (self_kf res) ! t) (loc_J res ! (t - 1)))
            (fmul (fmul (loc_J res ! (t - 1))
                     (fsub (loc_M res ! (t + 1))
                        (fmul (Fin (self_A (self_kf res))) (self_Pf (self_kf res) ! t))))
               (loc_J res ! (t - 1)))"
    unfolding n by blast
  from res(6) have J3: "loc_J res ! 3 =
        fdiv (fmul (self_Pf (self_kf res) ! 3) (Fin (self_A (self_kf res))))
          (self_Pp (self_kf res) ! 4)"
    by (elim allE [of _ 3]) simp
  from res(7) have M1: "loc_M res ! 1 =
          fadd (fmul (self_Pf (self_kf res) ! 1) (loc_J res ! 0))
            (fmul (fmul (loc_J res ! 0)
                     (fsub (loc_M res ! 2)
                        (fmul (Fin (self_A (self_kf res))) (self_Pf (self_kf res) ! 1))))
               (loc_J res ! 0))"
    by (elim allE [of _ 1]) (simp add: numeral_2_eq_2)
  from res(1-5) J3 M1 wf_sys_ex h show ?thesis by simp
qed

text \<open>
  Claim C6, as amended. For a well-formed model with \<open>T \<ge> 2\<close> (and \<open>nParInference \<le> 4\<close>)
  \<^verbatim>\<open>rts\<close> returns, also for \<open>T = 2\<close>; \<^verbatim>\<open>xhats\<close> and \<^verbatim>\<open>Ps\<close> have \<open>T\<close> entries each, and
  their last entries are \<open>xhatf\<^sub>T\<^sub>-\<^sub>1\<close> and \<open>Pf\<^sub>T\<^sub>-\<^sub>1\<close> of the filter run on this model. Nothing
  is stated of the entries at index 0.
\<close>

theorem rts_minimal_run:
  assumes "wf_sys sys" and "2 \<le> sys_T sys" and "sys_nParInference sys \<le> 4"
  shows "\<exists>res. rts sys = Inr res \<and> kf sys = Inr (self_kf res) \<and>
     length (self_xhats res) = nat (sys_T sys) \<and> length (self_Ps res) = nat (sys_T sys) \<and>
     self_xhats res ! (nat (sys_T sys) - 1) = self_xhatf (self_kf res) ! (nat (sys_T sys) - 1) \<and>
     self_Ps res ! (nat (sys_T sys) - 1) = self_Pf (self_kf res) ! (nat (sys_T sys) - 1)"
proof -
  from rts_run_smooth [OF assms] obtain res where res: "rts sys = Inr res"
    and self: "kf sys = Inr (self_kf res)"
    and ok: "smooth_ok (self_kf res) (nat (sys_T sys))
       \<lparr>r_J = loc_J res, r_M = loc_M res, r_xhats = self_xhats res, r_Ps = self_Ps res\<rparr>"
    by blast
  from ok res self show ?thesis
    by (simp add: smooth_ok_def sm_lens_def)
qed

text \<open>
  The theorem of claim C6 at the model \<open>sys_T2\<close>.
\<close>

theorem rts_minimal_run_witness:
  "wf_sys sys_T2 \<and> 2 \<le> sys_T sys_T2 \<and> sys_nParInference sys_T2 \<le> 4 \<and>
   (\<exists>res. rts sys_T2 = Inr res \<and> kf sys_T2 = Inr (self_kf res) \<and>
      length (self_xhats res) = 2 \<and> length (self_Ps res) = 2 \<and>
      self_xhats res ! 1 = self_xhatf (self_kf res) ! 1 \<and>
      self_Ps res ! 1 = self_Pf (self_kf res) ! 1)"
proof -
  have h: "2 \<le> sys_T sys_T2" "sys_nParInference sys_T2 \<le> 4" and n: "nat (sys_T sys_T2) = 2"
    by (simp_all add: sys_T2_def)
  from rts_minimal_run [OF wf_sys_T2 h] wf_sys_T2 h show ?thesis
    unfolding n by simp
qed

text \<open>
  Claim C6 as stated fails at \<open>sys_T2\<close> (\<open>T = 2\<close>): the run returns, and the entries at
  index 0 of \<^verbatim>\<open>xhats\<close> and \<^verbatim>\<open>Ps\<close> hold the finite value zero, not a mark of an
  undefined entry.
\<close>

theorem rts_index0_counterexample:
  "\<not> isl (rts sys_T2) \<and> self_xhats (projr (rts sys_T2)) ! 0 = Fin 0 \<and>
   self_Ps (projr (rts sys_T2)) ! 0 = Fin 0"
proof -
  have h: "2 \<le> sys_T sys_T2" "sys_nParInference sys_T2 \<le> 4"
    by (simp_all add: sys_T2_def)
  from rts_run_smooth [OF wf_sys_T2 h] obtain res where res: "rts sys_T2 = Inr res"
    and ok: "smooth_ok (self_kf res) (nat (sys_T sys_T2))
       \<lparr>r_J = loc_J res, r_M = loc_M res, r_xhats = self_xhats res, r_Ps = self_Ps res\<rparr>"
    by blast
  from ok show ?thesis by (simp add: res smooth_ok_def)
qed

lemma kf_run_pars:
  assumes "wf_sys sys"
  shows "\<exists>self. kf sys = Inr self \<and> self_m self = sys_par sys ! 0 \<and>
     self_A self = sys_par sys ! 1 \<and> self_q self = sys_par sys ! 2 \<and>
     self_r self = sys_par sys ! 3 \<and> self_Q self = (sys_par sys ! 2)\<^sup>2 \<and>
     self_R self = (sys_par sys ! 3)\<^sup>2"
  using kf_run [OF assms] by auto


lemma rts_run_grad:
  assumes "wf_sys sys" and "2 \<le> sys_T sys" and "1 \<le> sys_nParInference sys"
    and "sys_nParInference sys \<le> 4"
  shows "\<exists>res. rts sys = Inr res \<and> kf sys = Inr (self_kf res) \<and>
     length (self_gradient res) = nat (sys_nParInference sys) \<and>
     length (self_gradient1 res) = nat (sys_nParInference sys) \<and>
     (\<forall>i<nat (sys_nParInference sys).
        grad_row_ok (score sys (self_kf res)
            \<lparr>r_J = loc_J res, r_M = loc_M res, r_xhats = self_xhats res, r_Ps = self_Ps res\<rparr> i)
          (nat (sys_T sys)) (nat (sys_T sys)) (self_gradient1 res ! i) \<and>
        self_gradient res ! i =
          fadd (sys_dprior1 sys (int i)) (np_sum (self_gradient1 res ! i)))"
proof -
  from rts_run [OF assms(1,2,4)] obtain self v r0 r1 r2 r3 h where
    self: "kf sys = Inr self" and
    r: "rts sys = Inr \<lparr>self_kf = self, self_Ps = r_Ps v, self_xhats = r_xhats v,
       self_gradient = py_slice0 h (sys_nParInference sys),
       self_gradient1 = py_slice0 [r0, r1, r2, r3] (sys_nParInference sys),
       loc_J = r_J v, loc_M = r_M v\<rparr>" and
    rows: "grad_row_ok (score sys self v 0) (nat (sys_T sys)) (nat (sys_T sys)) r0"
      "grad_row_ok (score sys self v 1) (nat (sys_T sys)) (nat (sys_T sys)) r1"
      "grad_row_ok (score sys self v 2) (nat (sys_T sys)) (nat (sys_T sys)) r2"
      "grad_row_ok (score sys self v 3) (nat (sys_T sys)) (nat (sys_T sys)) r3" and
    h: "nat (sys_nParInference sys) \<le> length h"
      "\<forall>i<nat (sys_nParInference sys).
        h ! i = fadd (sys_dprior1 sys (int i)) (np_sum ([r0, r1, r2, r3] ! i))"
    by blast
  define p where "p = nat (sys_nParInference sys)"
  from assms(3,4) have p: "p \<le> 4" and sl: "py_slice0 xs (sys_nParInference sys) = take p xs"
    for xs :: "'a list"
    by (simp_all add: p_def py_slice0_def)
  have v: "\<lparr>r_J = r_J v, r_M = r_M v, r_xhats = r_xhats v, r_Ps = r_Ps v\<rparr> = v"
    by (cases v) simp
  have row: "grad_row_ok (score sys self v i) (nat (sys_T sys)) (nat (sys_T sys))
      ([r0, r1, r2, r3] ! i)" if "i < p" for i
  proof -
    from that p have "i = 0 \<or> i = 1 \<or> i = 2 \<or> i = 3" by auto
    with rows show ?thesis by auto
  qed
  have "length (take p h) = p" "length (take p [r0, r1, r2, r3]) = p"
    using h(1) p by (simp_all add: p_def)
  moreover have "grad_row_ok (score sys self v i) (nat (sys_T sys)) (nat (sys_T sys))
      (take p [r0, r1, r2, r3] ! i) \<and>
      take p h ! i = fadd (sys_dprior1 sys (int i)) (np_sum (take p [r0, r1, r2, r3] ! i))"
    if "i < p" for i
    using that row [OF that] h(2) by (simp add: p_def)
  ultimately show ?thesis
    unfolding p_def [symmetric]
    by (intro exI [of _ "\<lparr>self_kf = self, self_Ps = r_Ps v, self_xhats = r_xhats v,
       self_gradient = take p h, self_gradient1 = take p [r0, r1, r2, r3],
       loc_J = r_J v, loc_M = r_M v\<rparr>"]) (simp add: r self sl v)
qed




subsection \<open>Degenerate and invalid models\<close>

lemma fadd_NonFinite [simp]: "fadd x NonFinite = NonFinite"
  by (cases x) simp_all

lemma np_sum_NonFinite:
  assumes "t < length row" and "row ! t = NonFinite"
  shows "np_sum row = NonFinite"
proof -
  from assms have "\<not> (\<forall>t<length row. is_fin (row ! t))" by auto
  then show ?thesis by (simp add: np_sum_nth)
qed

lemma score_q0:
  assumes "self_q self = 0" and "i < 3"
  shows "score sys self v i t = NonFinite"
proof -
  from assms(2) have "i = 0 \<or> i = 1 \<or> i = 2" by auto
  then show ?thesis
    by (auto simp: score_def spec_score_def spec_dmu_def spec_dphi_def spec_dsigv_def
        fpow_def assms(1) Let_def)
qed

lemma rts_q0_nonfinite:
  assumes "wf_sys sys" and "2 \<le> sys_T sys" and "1 \<le> sys_nParInference sys"
    and "sys_nParInference sys \<le> 4" and q: "sys_par sys ! 2 = 0"
  shows "\<exists>res. rts sys = Inr res \<and>
     (\<forall>i<nat (sys_nParInference sys). i < 3 \<longrightarrow> self_gradient res ! i = NonFinite)"
proof -
  from rts_run_grad [OF assms(1-4)] obtain res where res: "rts sys = Inr res"
    and self: "kf sys = Inr (self_kf res)"
    and rows: "\<And>i. i < nat (sys_nParInference sys) \<Longrightarrow>
        grad_row_ok (score sys (self_kf res)
            \<lparr>r_J = loc_J res, r_M = loc_M res, r_xhats = self_xhats res, r_Ps = self_Ps res\<rparr> i)
          (nat (sys_T sys)) (nat (sys_T sys)) (self_gradient1 res ! i)"
    and sums: "\<And>i. i < nat (sys_nParInference sys) \<Longrightarrow> self_gradient res ! i =
          fadd (sys_dprior1 sys (int i)) (np_sum (self_gradient1 res ! i))"
    by blast
  from kf_run_pars [OF assms(1)] self q have q0: "self_q (self_kf res) = 0" by auto
  have "self_gradient res ! i = NonFinite" if i: "i < nat (sys_nParInference sys)" "i < 3" for i
  proof -
    from rows [OF i(1)] assms(2) have "1 < length (self_gradient1 res ! i)"
      and "self_gradient1 res ! i ! 1 = score sys (self_kf res)
            \<lparr>r_J = loc_J res, r_M = loc_M res, r_xhats = self_xhats res, r_Ps = self_Ps res\<rparr> i 1"
      by (simp_all add: grad_row_ok_def)
    then have "np_sum (self_gradient1 res ! i) = NonFinite"
      using score_q0 [OF q0 i(2)] by (intro np_sum_NonFinite [of 1]) simp_all
    with sums [OF i(1)] show ?thesis by simp
  qed
  with res show ?thesis by blast
qed

text \<open>
  Claim C7, as amended. With \<open>sigma_v = par[2] = 0\<close>, on a well-formed model with \<open>T \<ge> 2\<close> and
  \<open>nParInference\<close> in \<open>[1, 4]\<close>, \<^verbatim>\<open>rts\<close> raises nothing: it returns, and the components
  of \<^verbatim>\<open>self.gradient\<close> for \<open>mu\<close>, \<open>phi\<close> and \<open>sigma_v\<close> (those among the first
  \<open>nParInference\<close>) are non-finite.
\<close>

theorem rts_sigma_v_zero:
  assumes "wf_sys sys" and "2 \<le> sys_T sys" and "1 \<le> sys_nParInference sys"
    and "sys_nParInference sys \<le> 4" and "sys_par sys ! 2 = 0"
  shows "\<exists>res. rts sys = Inr res \<and>
     (\<forall>i<nat (sys_nParInference sys). i < 3 \<longrightarrow> self_gradient res ! i = NonFinite)"
  using assms by (rule rts_q0_nonfinite)

text \<open>
  The theorem of claim C7 at the model \<open>sys_q0\<close>.
\<close>

theorem rts_sigma_v_zero_witness:
  "wf_sys sys_q0 \<and> 2 \<le> sys_T sys_q0 \<and> 1 \<le> sys_nParInference sys_q0 \<and>
   sys_nParInference sys_q0 \<le> 4 \<and> sys_par sys_q0 ! 2 = 0 \<and>
   (\<exists>res. rts sys_q0 = Inr res \<and> self_gradient res ! 0 = NonFinite \<and>
      self_gradient res ! 1 = NonFinite)"
proof -
  have h: "2 \<le> sys_T sys_q0" "1 \<le> sys_nParInference sys_q0" "sys_nParInference sys_q0 \<le> 4"
    "sys_par sys_q0 ! 2 = 0" and n: "nat (sys_nParInference sys_q0) = 2"
    by (simp_all add: sys_q0_def)
  from rts_sigma_v_zero [OF wf_sys_q0 h] obtain res where "rts sys_q0 = Inr res"
    "\<forall>i<2. i < 3 \<longrightarrow> self_gradient res ! i = NonFinite"
    unfolding n by blast
  then have "\<exists>res. rts sys_q0 = Inr res \<and> self_gradient res ! 0 = NonFinite \<and>
      self_gradient res ! 1 = NonFinite"
    by (intro exI [of _ res]) simp
  with wf_sys_q0 h show ?thesis by blast
qed

text \<open>
  Claim C7 as stated fails at \<open>sys_q0\<close>, where \<open>par[2] = 0\<close>: \<^verbatim>\<open>rts\<close> returns a result, not
  a failure, and the first component of the gradient is non-finite.
\<close>

theorem rts_sigma_v_zero_counterexample:
  "\<not> isl (rts sys_q0) \<and> self_gradient (projr (rts sys_q0)) ! 0 = NonFinite"
proof -
  have h: "2 \<le> sys_T sys_q0" "1 \<le> sys_nParInference sys_q0" "sys_nParInference sys_q0 \<le> 4"
    "sys_par sys_q0 ! 2 = 0" and n: "nat (sys_nParInference sys_q0) = 2"
    by (simp_all add: sys_q0_def)
  from rts_q0_nonfinite [OF wf_sys_q0 h] obtain res where res: "rts sys_q0 = Inr res"
    "\<forall>i<2. i < 3 \<longrightarrow> self_gradient res ! i = NonFinite"
    unfolding n by blast
  then show ?thesis by simp
qed

lemma kf_run_first:
  assumes wf: "wf_sys sys" and T: "0 < sys_T sys" and r: "sys_par sys ! 3 \<noteq> 0"
  shows "\<exists>self. kf sys = Inr self \<and> self_A self = sys_par sys ! 1 \<and>
     self_Pf self ! 0 =
       Fin (1 / 100000 * (sys_par sys ! 3)\<^sup>2 / (1 / 100000 + (sys_par sys ! 3)\<^sup>2)) \<and>
     self_Pp self ! 1 =
       Fin ((sys_par sys ! 1)\<^sup>2 *
            (1 / 100000 * (sys_par sys ! 3)\<^sup>2 / (1 / 100000 + (sys_par sys ! 3)\<^sup>2)) +
            (sys_par sys ! 2)\<^sup>2)"
proof -
  from kf_run [OF wf] obtain v self where
    self: "kf sys = Inr self" "self = 
      \<lparr>self_xo = 0, self_Po = 1 / 100000, self_m = sys_par sys ! 0, self_A = sys_par sys ! 1,
       self_C = 1, self_Q = (sys_par sys ! 2)\<^sup>2, self_q = sys_par sys ! 2,
       self_R = (sys_par sys ! 3)\<^sup>2, self_r = sys_par sys ! 3,
       self_ll = np_sum (v_ll v), self_llt = v_ll v,
       self_xhatf = v_xhatf v, self_xhatp = v_xhatp v, self_K = v_K v,
       self_Pp = v_Pp v, self_Pf = v_Pf v, loc_S = v_S v, loc_yhatp = v_yhatp v\<rparr>"
    and inv: "kf_inv sys (sys_par sys ! 0) (sys_par sys ! 1) 1 ((sys_par sys ! 2)\<^sup>2)
       ((sys_par sys ! 3)\<^sup>2) (nat (sys_T sys)) (Fin (1 / 100000)) (Fin 0) (nat (sys_T sys)) v"
    by blast
  from inv T have eqs: "kf_eqs sys (sys_par sys ! 0) (sys_par sys ! 1) 1
      ((sys_par sys ! 2)\<^sup>2) ((sys_par sys ! 3)\<^sup>2) v 0"
    and pp: "v_Pp v ! 0 = Fin (1 / 100000)" and x: "v_xhatp v ! 0 = Fin 0"
    by (simp_all add: kf_inv_def)
  have R: "0 < (sys_par sys ! 3)\<^sup>2" using r by simp
  have p0: "(0::real) \<le> 1 / 100000" by simp
  note fin = kf_eqs_finite [OF eqs pp p0 R x]
  from fin(5,7) self show ?thesis by simp
qed

text \<open>
  Claim C4 against the code, at the model \<open>sys_ex\<close> (\<open>T = 5\<close>, \<open>A = 0.9\<close>): \<^verbatim>\<open>rts\<close>
  returns, and \<open>J\<^sub>0\<close>, which the second loop reads at \<open>t = 1\<close>, is the zero of the
  allocation, while \<open>Pf\<^sub>0 A / Pp\<^sub>1 = 90 / 2500181\<close>: the backward loop
  \<^verbatim>\<open>range(T-2, 0, -1)\<close> ends at index 1 and never writes \<open>J\<^sub>0\<close>.
\<close>

theorem rts_J0_not_computed:
  "\<not> isl (rts sys_ex) \<and> loc_J (projr (rts sys_ex)) ! 0 = Fin 0 \<and>
   fdiv (fmul (self_Pf (self_kf (projr (rts sys_ex))) ! 0)
           (Fin (self_A (self_kf (projr (rts sys_ex))))))
     (self_Pp (self_kf (projr (rts sys_ex))) ! 1) = Fin (90 / 2500181)"
proof -
  have h: "2 \<le> sys_T sys_ex" "sys_nParInference sys_ex \<le> 4" "0 < sys_T sys_ex"
    "sys_par sys_ex ! 3 \<noteq> 0"
    by (simp_all add: sys_ex_def)
  from rts_run_smooth [OF wf_sys_ex h(1,2)] obtain res where res: "rts sys_ex = Inr res"
    and self: "kf sys_ex = Inr (self_kf res)"
    and ok: "smooth_ok (self_kf res) (nat (sys_T sys_ex))
       \<lparr>r_J = loc_J res, r_M = loc_M res, r_xhats = self_xhats res, r_Ps = self_Ps res\<rparr>"
    by blast
  from kf_run_first [OF wf_sys_ex h(3,4)] self
  have A: "self_A (self_kf res) = 9 / 10"
    and Pf: "self_Pf (self_kf res) ! 0 = Fin (1 / 100004)"
    and Pp: "self_Pp (self_kf res) ! 1 = Fin (2500181 / 10000400)"
    by (auto simp: sys_ex_def power2_eq_square)
  from ok have "loc_J res ! 0 = Fin 0" by (simp add: smooth_ok_def)
  with A Pf Pp show ?thesis by (simp add: res)
qed

lemma rts_T_negative:
  assumes "sys_T sys < 0"
  shows "kf sys = Inl ValueError" and "rts sys = Inl ValueError"
proof -
  from assms show "kf sys = Inl ValueError" by (simp add: kf_def np_zeros_def)
  then show "rts sys = Inl ValueError" by (simp add: rts_def)
qed

lemma rts_T_zero:
  assumes "wf_sys sys" and "sys_T sys = 0"
  shows "\<exists>self. kf sys = Inr self \<and> rts_init sys self = Inl IndexError \<and>
    rts sys = Inl IndexError"
proof -
  from kf_run_self_lens [OF assms(1)] assms(2) obtain self where self: "kf sys = Inr self"
    and "self_lens 0 self" by auto
  then have "self_Pf self = []" by (simp add: self_lens_def)
  then have init: "rts_init sys self = Inl IndexError"
    by (simp add: rts_init_def assms(2) np_zeros_def rd_def py_index_def)
  with self show ?thesis by (simp add: rts_def)
qed

lemma unbound_gradient0:
  assumes "g_gradient0 g = None"
  shows "bnd (rts_prior sys g) (rts_output sys self v) = Inl UnboundLocalError"
proof (cases "py_range 0 (sys_nParInference sys)")
  case Nil
  with assms show ?thesis by (simp add: rts_prior_def rts_output_def)
next
  case (Cons nn nns)
  with assms show ?thesis by (simp add: rts_prior_def rts_prior_step_def)
qed

lemma rts_T_one:
  assumes wf: "wf_sys sys" and T: "sys_T sys = 1"
  shows "\<exists>self v v'. kf sys = Inr self \<and> rts_init sys self = Inr v \<and>
    rts_backward sys self v = Inr v' \<and> rts sys = Inl UnboundLocalError"
proof -
  from T have T1: "sys_T sys = int 1" by simp
  from wf T have ny: "1 \<le> length (sys_y sys)" and nu: "1 \<le> length (sys_u sys)"
    by (simp_all add: wf_sys_def)
  from kf_run_self_lens [OF wf] T obtain self where self: "kf sys = Inr self"
    and sl: "self_lens 1 self" by auto
  from rts_init_inv [OF sl _ T1] obtain v where v: "rts_init sys self = Inr v"
    and inv: "back_inv self 1 (1 - 1) v" by auto
  from inv have lens: "sm_lens 1 v" by (simp add: back_inv_def)
  have bk: "rts_backward sys self v = Inr v"
    by (simp add: rts_backward_def T py_range_down_def)
  from sl lens have "\<exists>w. rts_lagone sys self v = Inr w \<and> sm_lens 1 w"
    by (simp add: rts_lagone_def T py_range_down_def self_lens_def sm_lens_def rd_def wr_def
        py_index_def)
  then obtain w where w: "rts_lagone sys self v = Inr w" "sm_lens 1 w" by blast
  from rts_gradient_run [OF w(2) _ T1 ny nu, of self] obtain g where
    g: "rts_gradient sys self w = Inr g" and "grad_inv sys self w 1 1 g" by auto
  then have "g_gradient0 g = None" by (simp add: grad_inv_def)
  from unbound_gradient0 [OF this, of sys self w]
  have "rts sys = Inl UnboundLocalError"
    by (simp add: rts_def self v bk w(1) g)
  with self v bk show ?thesis by blast
qed

lemma rts_prior_overrun:
  assumes g0: "g_gradient0 g = Some h0" and len: "length h0 = 4"
    and np: "4 < sys_nParInference sys"
  shows "rts_prior sys g = Inl IndexError"
proof -
  define p where "p = nat (sys_nParInference sys)"
  from np have p: "4 < p" by (simp add: p_def)
  have "\<exists>g'. for_loop (rts_prior_step sys) (map int [0..<4]) g = Inr g' \<and>
    prior_inv sys (g_gradient g) h0 4 g'"
  proof (rule for_loop_up_inv [where P = "prior_inv sys (g_gradient g) h0"])
    show "prior_inv sys (g_gradient g) h0 0 g"
      using g0 by (simp add: prior_inv_def)
    show "\<exists>g'. rts_prior_step sys (int k) w = Inr g' \<and>
        prior_inv sys (g_gradient g) h0 (Suc k) g'"
      if "k < 4" and "prior_inv sys (g_gradient g) h0 k w" for k w
      using that len by (intro rts_prior_step_inv) simp_all
    show "(0::nat) \<le> 4" by simp
  qed
  then obtain g' where g': "for_loop (rts_prior_step sys) (map int [0..<4]) g = Inr g'"
    and "prior_inv sys (g_gradient g) h0 4 g'" by blast
  then obtain h where h: "g_gradient0 g' = Some h" "length h = 4"
    unfolding prior_inv_def len by auto
  have step: "rts_prior_step sys 4 g' = Inl IndexError"
    by (simp add: rts_prior_step_def h rd_def py_index_def)
  have "[0..<p] = [0..<4] @ [4..<p]"
    using upt_add_eq_append [of 0 4 "p - 4"] p by simp
  moreover have "[4..<p] = 4 # [5..<p]"
    using upt_conv_Cons [of 4 p] p by simp
  ultimately have "[0..<p] = [0..<4] @ 4 # [5..<p]" by simp
  then show ?thesis
    by (simp add: rts_prior_def py_range_0 p_def [symmetric] for_loop_append g' step)
qed

lemma rts_nPar_large:
  assumes wf: "wf_sys sys" and T2: "2 \<le> sys_T sys" and np: "4 < sys_nParInference sys"
  shows "\<exists>self v v'. kf sys = Inr self \<and> rts_init sys self = Inr v \<and>
    rts_backward sys self v = Inr v' \<and> rts sys = Inl IndexError"
proof -
  define n where "n = nat (sys_T sys)"
  from T2 have n: "2 \<le> n" and T: "sys_T sys = int n" by (simp_all add: n_def)
  from wf have ny: "n \<le> length (sys_y sys)" and nu: "n \<le> length (sys_u sys)"
    by (simp_all add: wf_sys_def n_def)
  from kf_run_self_lens [OF wf] obtain self where self: "kf sys = Inr self"
    and sl: "self_lens n self" unfolding n_def by blast
  from smooth_run [OF sl n T] obtain v1 v2 v where v1: "rts_init sys self = Inr v1"
    and v2: "rts_backward sys self v1 = Inr v2" and v: "rts_lagone sys self v2 = Inr v"
    and ok: "smooth_ok self n v" by blast
  from ok have lens: "sm_lens n v" by (simp add: smooth_ok_def)
  from n have n1: "1 \<le> n" by simp
  from rts_gradient_run [OF lens n1 T ny nu, of self] obtain g where
    g: "rts_gradient sys self v = Inr g" and ginv: "grad_inv sys self v n n g" by blast
  from ginv n obtain r0 r1 r2 r3 where
    g0: "g_gradient0 g = Some (map np_sum (py_slice0 [r0, r1, r2, r3] (sys_nParInference sys)))"
    unfolding grad_inv_def by auto
  have "length (map np_sum (py_slice0 [r0, r1, r2, r3] (sys_nParInference sys))) = 4"
    using np by (simp add: py_slice0_def)
  from rts_prior_overrun [OF g0 this np] have "rts sys = Inl IndexError"
    by (simp add: rts_def self v1 v2 v g)
  with self v1 v2 show ?thesis by blast
qed

lemma rts_nPar_small:
  assumes "wf_sys sys" and "2 \<le> sys_T sys" and "sys_nParInference sys < 1"
  shows "\<exists>res. rts sys = Inr res"
proof -
  from assms(3) have np: "sys_nParInference sys \<le> 4" by simp
  from rts_run [OF assms(1,2) np] show ?thesis by blast
qed

text \<open>
  Claim C8, as amended. \<^verbatim>\<open>rts\<close> checks no precondition. With four parameters and data for
  every time: if \<open>T < 0\<close> the filter fails in its first allocation (\<^verbatim>\<open>ValueError\<close>); if
  \<open>T = 0\<close> the filter returns and line 130 fails (\<^verbatim>\<open>IndexError\<close>), both before the
  backward pass; if \<open>T = 1\<close> the backward pass returns and \<^verbatim>\<open>rts\<close> fails later, on the
  unbound \<^verbatim>\<open>gradient0\<close> (\<^verbatim>\<open>UnboundLocalError\<close>); if \<open>T \<ge> 2\<close> and \<open>nParInference > 4\<close> the
  backward pass returns and \<^verbatim>\<open>rts\<close> fails later, at \<^verbatim>\<open>gradient0[4]\<close> (\<^verbatim>\<open>IndexError\<close>); if
  \<open>T \<ge> 2\<close> and \<open>nParInference < 1\<close> \<^verbatim>\<open>rts\<close> returns.
\<close>

theorem rts_preconditions:
  assumes "4 \<le> length (sys_par sys)" and "nat (sys_T sys) \<le> length (sys_y sys)"
    and "nat (sys_T sys) \<le> length (sys_u sys)"
  shows "(sys_T sys < 0 \<longrightarrow> kf sys = Inl ValueError \<and> rts sys = Inl ValueError) \<and>
    (sys_T sys = 0 \<longrightarrow>
       (\<exists>self. kf sys = Inr self \<and> rts_init sys self = Inl IndexError) \<and>
       rts sys = Inl IndexError) \<and>
    (sys_T sys = 1 \<longrightarrow>
       (\<exists>self v v'. kf sys = Inr self \<and> rts_init sys self = Inr v \<and>
          rts_backward sys self v = Inr v') \<and>
       rts sys = Inl UnboundLocalError) \<and>
    (2 \<le> sys_T sys \<and> 4 < sys_nParInference sys \<longrightarrow>
       (\<exists>self v v'. kf sys = Inr self \<and> rts_init sys self = Inr v \<and>
          rts_backward sys self v = Inr v') \<and>
       rts sys = Inl IndexError) \<and>
    (2 \<le> sys_T sys \<and> sys_nParInference sys < 1 \<longrightarrow> (\<exists>res. rts sys = Inr res))"
proof -
  have wf: "wf_sys sys" if "0 \<le> sys_T sys"
    using that assms by (simp add: wf_sys_def)
  have "kf sys = Inl ValueError \<and> rts sys = Inl ValueError" if "sys_T sys < 0"
    using rts_T_negative [OF that] by simp
  moreover have "(\<exists>self. kf sys = Inr self \<and> rts_init sys self = Inl IndexError) \<and>
       rts sys = Inl IndexError" if "sys_T sys = 0"
    using rts_T_zero [OF wf that] that by auto
  moreover have "(\<exists>self v v'. kf sys = Inr self \<and> rts_init sys self = Inr v \<and>
          rts_backward sys self v = Inr v') \<and> rts sys = Inl UnboundLocalError"
    if "sys_T sys = 1"
    using rts_T_one [OF wf that] that by auto
  moreover have "(\<exists>self v v'. kf sys = Inr self \<and> rts_init sys self = Inr v \<and>
          rts_backward sys self v = Inr v') \<and> rts sys = Inl IndexError"
    if "2 \<le> sys_T sys" "4 < sys_nParInference sys"
    using rts_nPar_large [OF wf that] that by auto
  moreover have "\<exists>res. rts sys = Inr res" if "2 \<le> sys_T sys" "sys_nParInference sys < 1"
    using rts_nPar_small [OF wf that] that by auto
  ultimately show ?thesis by blast
qed

text \<open>
  The theorem of claim C8 at five models, one for each case.
\<close>

theorem rts_preconditions_witness:
  "sys_T sys_Tneg < 0 \<and> kf sys_Tneg = Inl ValueError \<and> rts sys_Tneg = Inl ValueError \<and>
   sys_T sys_T0 = 0 \<and> rts sys_T0 = Inl IndexError \<and>
   sys_T sys_T1 = 1 \<and> rts sys_T1 = Inl UnboundLocalError \<and>
   2 \<le> sys_T sys_n5 \<and> 4 < sys_nParInference sys_n5 \<and> rts sys_n5 = Inl IndexError \<and>
   2 \<le> sys_T sys_n0 \<and> sys_nParInference sys_n0 < 1 \<and> (\<exists>res. rts sys_n0 = Inr res)"
proof -
  have a: "sys_T sys_Tneg < 0" "4 \<le> length (sys_par sys_Tneg)"
    "nat (sys_T sys_Tneg) \<le> length (sys_y sys_Tneg)"
    "nat (sys_T sys_Tneg) \<le> length (sys_u sys_Tneg)"
    by (simp_all add: sys_Tneg_def sys_ex_def)
  have b: "sys_T sys_T0 = 0" "4 \<le> length (sys_par sys_T0)"
    "nat (sys_T sys_T0) \<le> length (sys_y sys_T0)" "nat (sys_T sys_T0) \<le> length (sys_u sys_T0)"
    by (simp_all add: sys_T0_def sys_ex_def)
  have c: "sys_T sys_T1 = 1" "4 \<le> length (sys_par sys_T1)"
    "nat (sys_T sys_T1) \<le> length (sys_y sys_T1)" "nat (sys_T sys_T1) \<le> length (sys_u sys_T1)"
    by (simp_all add: sys_T1_def sys_ex_def)
  have d: "2 \<le> sys_T sys_n5" "4 < sys_nParInference sys_n5" "4 \<le> length (sys_par sys_n5)"
    "nat (sys_T sys_n5) \<le> length (sys_y sys_n5)" "nat (sys_T sys_n5) \<le> length (sys_u sys_n5)"
    by (simp_all add: sys_n5_def sys_ex_def)
  have e: "2 \<le> sys_T sys_n0" "sys_nParInference sys_n0 < 1" "4 \<le> length (sys_par sys_n0)"
    "nat (sys_T sys_n0) \<le> length (sys_y sys_n0)" "nat (sys_T sys_n0) \<le> length (sys_u sys_n0)"
    by (simp_all add: sys_n0_def sys_T2_def)
  from rts_preconditions [OF a(2-4)] a(1)
  have 1: "kf sys_Tneg = Inl ValueError \<and> rts sys_Tneg = Inl ValueError" by blast
  from rts_preconditions [OF b(2-4)] b(1) have 2: "rts sys_T0 = Inl IndexError" by blast
  from rts_preconditions [OF c(2-4)] c(1) have 3: "rts sys_T1 = Inl UnboundLocalError"
    by blast
  from rts_preconditions [OF d(3-5)] d(1,2) have 4: "rts sys_n5 = Inl IndexError" by blast
  from rts_preconditions [OF e(3-5)] e(1,2) have 5: "\<exists>res. rts sys_n0 = Inr res" by blast
  from 1 2 3 4 5 a(1) b(1) c(1) d(1,2) e(1,2) show ?thesis by blast
qed

text \<open>
  Claim C8 as stated fails at \<open>sys_n0\<close>: \<open>nParInference = 0\<close> lies outside \<open>[1, 4]\<close>, and
  \<^verbatim>\<open>rts\<close> returns a result.
\<close>

theorem rts_preconditions_counterexample:
  "sys_T sys_n0 = 2 \<and> sys_nParInference sys_n0 = 0 \<and> \<not> isl (rts sys_n0)"
proof -
  have e: "wf_sys sys_n0" "2 \<le> sys_T sys_n0" "sys_nParInference sys_n0 < 1"
    "sys_T sys_n0 = 2" "sys_nParInference sys_n0 = 0"
    by (simp_all add: sys_n0_def sys_T2_def wf_sys_def)
  from rts_nPar_small [OF e(1-3)] obtain res where "rts sys_n0 = Inr res" by blast
  with e(4,5) show ?thesis by simp
qed

end
